theory Spec2Isabelle
  imports Main
begin

section \<open>The cloud synchronisation script (scripts/cloud\_sync.py)\<close>

text \<open>
  The script pushes the rows of the local \<open>submissions\<close> table that are not yet
  synchronised to a remote service. Everything the Python code does beyond computing
  values is explicit here: the database, the configuration file, the clock, the
  network and the log are fields of a \<open>world\<close> record that every operation takes
  and returns. What the environment decides (the answer of \<open>ping\<close>, the replies of the
  remote service, whether a database or file operation raises) is read from oracle
  fields of that record, so that every \<open>except\<close> branch of the source is a branch of
  the model.
\<close>

subsection \<open>CONFIG\<close>

record settings =
  max_retries :: nat
  retry_delay :: nat
  batch_size :: nat

definition CONFIG :: settings where
  "CONFIG = \<lparr>max_retries = 3, retry_delay = 5, batch_size = 10\<rparr>"

subsection \<open>The submissions table and the values built from its rows\<close>

text \<open>
  A row as \<open>save_submission\<close> (flask\_server/app.py) writes it. The \<open>data\<close> and
  \<open>files\<close> columns hold JSON text produced by \<open>json.dumps\<close>; they are kept in
  decoded form (a NULL \<open>files\<close> column is the empty list, as the reader decodes it).
  Timestamps are seconds on the clock of the world.
\<close>

record file_info =
  original_name :: string
  saved_name :: string
  path :: string
  size_bytes :: nat

record submission_row =
  row_id :: nat
  row_timestamp :: nat
  row_form_type :: string
  row_data :: "(string \<times> string) list"
  row_files :: "file_info list"
  row_ip_address :: "string option"
  row_user_agent :: "string option"
  synced_to_cloud :: bool
  sync_timestamp :: "nat option"

text \<open>The dictionary that \<open>get_unsynced_submissions\<close> builds from a selected row.\<close>

record submission =
  sub_id :: nat
  sub_timestamp :: nat
  sub_form_type :: string
  sub_data :: "(string \<times> string) list"
  sub_files :: "file_info list"
  sub_ip_address :: "string option"

record file_summary =
  f_name :: string
  f_size :: nat
  f_type :: string

record device_info =
  hostname :: string
  platform :: string

text \<open>\<open>sync_data\<close>; the key \<open>files\<close> is present only for a submission with files.\<close>

record sync_data =
  source :: string
  submission_id :: nat
  timestamp :: nat
  form_type :: string
  data :: "(string \<times> string) list"
  ip_address :: "string option"
  device :: device_info
  files :: "file_summary list option"

record api_data =
  req_api_key :: string
  req_timestamp :: nat
  req_signature :: string
  req_data :: sync_data

text \<open>
  The cloud configuration (\<open>self.config\<close>). A key that is absent from the dictionary
  reads as a falsy value through \<open>.get\<close>, which is the empty string, \<open>False\<close> or
  \<open>None\<close> here.
\<close>

record cloud_config =
  api_key :: string
  api_secret :: string
  sync_enabled :: bool
  last_sync_time :: "nat option"
  sync_interval :: nat
  auto_sync :: bool

subsection \<open>Library functions and the environment\<close>

text \<open>
  \<open>hashlib.md5(...).hexdigest()\<close>, \<open>json.dumps(..., sort_keys=True)\<close> and
  \<open>os.uname().nodename\<close> are taken as parameters. An MD5 digest in hexadecimal has 32
  characters; where a property needs the digest not to be the empty string (which
  \<open>if not signature\<close> would take for a missing signature), it says so.
\<close>

record externals =
  md5_hexdigest :: "string \<Rightarrow> string"
  json_dumps :: "sync_data \<Rightarrow> string"
  nodename :: string

text \<open>
  What one \<open>session.post\<close> followed by the handling of its response can do:
  return a response with a status code (for status 200 the flag is the truth value of
  \<open>result.get('success')\<close>), raise a \<open>requests.exceptions.RequestException\<close>, or
  raise any other exception (caught by the outer handler of \<open>sync_to_cloud\<close>).
\<close>

datatype reply = Response nat bool | RequestException | OtherException

datatype log_message =
    WarnNetworkUnavailable
  | InfoSyncDisabled
  | InfoSyncStart
  | InfoNoPending
  | InfoSyncDone nat nat
  | ErrorSyncFailed nat
  | ErrorSelectFailed
  | ErrorMarkFailed
  | ErrorSaveConfigFailed
  | WarnNoApiKey
  | ErrorNoSignature
  | InfoSynced nat
  | ErrorCloud
  | ErrorHttp nat
  | ErrorRequestFailed nat nat
  | ErrorSyncException

datatype event =
    Ping
  | DbSelect
  | DbUpdate nat
  | HttpPost api_data
  | Sleep nat
  | ConfigTruncate
  | ConfigWrite cloud_config
  | Log log_message

text \<open>
  The configuration file: absent, holding a configuration, or damaged (opened for
  writing, which empties it, and then left empty or partly written).
\<close>

datatype file_state = NoFile | Holds cloud_config | Damaged

text \<open>
  Where \<open>save_config\<close> raises, if it does: before the file is written to (in
  \<open>os.makedirs\<close> or in \<open>open\<close>), or after \<open>open(..., 'w')\<close> has emptied the file (in
  \<open>json.dump\<close> or when the file is closed).
\<close>

datatype write_fault = NoFault | FailsBeforeWrite | FailsWhileWriting

record world =
  clock :: nat
  ping_ok :: bool
  respond :: "nat \<Rightarrow> reply"
  posts :: nat
  select_fails :: bool
  update_fails :: "nat \<Rightarrow> bool"
  save_fault :: write_fault
  db :: "submission_row list"
  config_file :: file_state
  trace :: "event list"

text \<open>
  \<open>respond w k\<close> is what the \<open>k\<close>-th POST of the run meets and \<open>posts w\<close> counts the
  POSTs made so far; \<open>update_fails w i\<close> says whether the UPDATE for id \<open>i\<close> raises.
  \<open>trace\<close> records the effects in the order they happen.
\<close>

definition emit :: "event \<Rightarrow> world \<Rightarrow> world" where
  "emit e w = w\<lparr>trace := trace w @ [e]\<rparr>"

definition logging :: "log_message \<Rightarrow> world \<Rightarrow> world" where
  "logging m w = emit (Log m) w"

text \<open>\<open>time.sleep(n)\<close>: the clock advances.\<close>

definition sleep :: "nat \<Rightarrow> world \<Rightarrow> world" where
  "sleep n w = emit (Sleep n) (w\<lparr>clock := clock w + n\<rparr>)"

subsection \<open>CloudSyncManager\<close>

text \<open>
  \<open>save_config\<close> opens the file with mode \<open>'w'\<close> and dumps the configuration into it;
  any exception is caught and logged. An exception raised once the file is open leaves
  the file damaged.
\<close>

definition save_config :: "cloud_config \<Rightarrow> world \<Rightarrow> world" where
  "save_config config w =
     (case save_fault w of
        NoFault \<Rightarrow> emit (ConfigWrite config) (w\<lparr>config_file := Holds config\<rparr>)
      | FailsBeforeWrite \<Rightarrow> logging ErrorSaveConfigFailed w
      | FailsWhileWriting \<Rightarrow>
          logging ErrorSaveConfigFailed (emit ConfigTruncate (w\<lparr>config_file := Damaged\<rparr>)))"

definition check_network_connection :: "world \<Rightarrow> bool \<times> world" where
  "check_network_connection w = (ping_ok w, emit Ping w)"

definition to_submission :: "submission_row \<Rightarrow> submission" where
  "to_submission r =
     \<lparr>sub_id = row_id r, sub_timestamp = row_timestamp r, sub_form_type = row_form_type r,
      sub_data = row_data r, sub_files = row_files r, sub_ip_address = row_ip_address r\<rparr>"

text \<open>
  The query: \<open>WHERE synced_to_cloud = FALSE ORDER BY timestamp ASC LIMIT ?\<close>. Rows of
  equal timestamp are kept in the order of the table; SQLite leaves their order open and
  no property below depends on it.
\<close>

definition select_unsynced :: "nat \<Rightarrow> submission_row list \<Rightarrow> submission_row list" where
  "select_unsynced limit rows =
     take limit (sort_key row_timestamp (filter (\<lambda>r. \<not> synced_to_cloud r) rows))"

definition get_unsynced_submissions :: "settings \<Rightarrow> world \<Rightarrow> submission list \<times> world" where
  "get_unsynced_submissions cfg w =
     (if select_fails w then ([], logging ErrorSelectFailed w)
      else (map to_submission (select_unsynced (batch_size cfg) (db w)), emit DbSelect w))"

text \<open>Decimal rendering of a number inside an f-string.\<close>

fun str_nat :: "nat \<Rightarrow> string" where
  "str_nat n =
     (if n < 10 then [char_of (48 + n)]
      else str_nat (n div 10) @ [char_of (48 + n mod 10)])"

declare str_nat.simps [simp del]

definition generate_signature ::
  "externals \<Rightarrow> cloud_config \<Rightarrow> sync_data \<Rightarrow> nat \<Rightarrow> string option" where
  "generate_signature ext config d ts =
     (let secret = api_secret config in
      if secret = [] then None
      else
        let sign_string = json_dumps ext d @ str_nat ts @ secret
        in Some (md5_hexdigest ext sign_string))"

definition file_type :: "string \<Rightarrow> string" where
  "file_type name =
     (if CHR ''.'' \<in> set name then rev (takeWhile (\<lambda>c. c \<noteq> CHR ''.'') (rev name))
      else ''unknown'')"

definition summarise :: "file_info \<Rightarrow> file_summary" where
  "summarise f =
     \<lparr>f_name = original_name f, f_size = size_bytes f, f_type = file_type (original_name f)\<rparr>"

definition build_sync_data :: "externals \<Rightarrow> submission \<Rightarrow> sync_data" where
  "build_sync_data ext s =
     \<lparr>source = ''raspberry_pi'',
      submission_id = sub_id s,
      timestamp = sub_timestamp s,
      form_type = sub_form_type s,
      data = sub_data s,
      ip_address = sub_ip_address s,
      device = \<lparr>hostname = nodename ext, platform = ''raspberry_pi_4b''\<rparr>,
      files = (if sub_files s \<noteq> [] then Some (map summarise (sub_files s)) else None)\<rparr>"

text \<open>
  The loop \<open>for attempt in range(CONFIG['max_retries'])\<close>, by recursion on the
  attempts still to make. A success returns at once; a response that is not a success
  is logged and the loop goes on; a request exception is logged, followed by a sleep
  unless the attempt is the last one; any other exception leaves the loop through the
  outer handler.
\<close>

fun post_attempts ::
  "settings \<Rightarrow> api_data \<Rightarrow> nat \<Rightarrow> nat list \<Rightarrow> world \<Rightarrow> bool \<times> world" where
  "post_attempts cfg req sid [] w = (False, w)"
| "post_attempts cfg req sid (attempt # rest) w =
     (let w1 = emit (HttpPost req) (w\<lparr>posts := Suc (posts w)\<rparr>) in
      case respond w (posts w) of
        Response status ok \<Rightarrow>
          if status = 200 then
            if ok then (True, logging (InfoSynced sid) w1)
            else post_attempts cfg req sid rest (logging ErrorCloud w1)
          else post_attempts cfg req sid rest (logging (ErrorHttp status) w1)
      | RequestException \<Rightarrow>
          let w2 = logging (ErrorRequestFailed (attempt + 1) (max_retries cfg)) w1;
              w3 = (if attempt < max_retries cfg - 1 then sleep (retry_delay cfg) w2 else w2)
          in post_attempts cfg req sid rest w3
      | OtherException \<Rightarrow> (False, logging ErrorSyncException w1))"

definition sync_to_cloud ::
  "externals \<Rightarrow> settings \<Rightarrow> cloud_config \<Rightarrow> submission \<Rightarrow> world \<Rightarrow> bool \<times> world" where
  "sync_to_cloud ext cfg config s w =
     (if api_key config = [] \<or> api_secret config = [] then (False, logging WarnNoApiKey w)
      else
        let d = build_sync_data ext s;
            ts = clock w
        in case generate_signature ext config d ts of
             None \<Rightarrow> (False, logging ErrorNoSignature w)
           | Some signature \<Rightarrow>
               if signature = [] then (False, logging ErrorNoSignature w)
               else
                 post_attempts cfg
                   \<lparr>req_api_key = api_key config, req_timestamp = ts,
                    req_signature = signature, req_data = d\<rparr>
                   (sub_id s) [0 ..< max_retries cfg] w)"

text \<open>
  The statement \<open>UPDATE submissions SET synced_to_cloud = TRUE,
  sync_timestamp = CURRENT_TIMESTAMP WHERE id = ?\<close> run at time \<open>now\<close>.
\<close>

definition update_synced :: "nat \<Rightarrow> nat \<Rightarrow> submission_row list \<Rightarrow> submission_row list" where
  "update_synced now i rows =
     map (\<lambda>r. if row_id r = i then r\<lparr>synced_to_cloud := True, sync_timestamp := Some now\<rparr> else r)
       rows"

definition mark_as_synced :: "nat \<Rightarrow> world \<Rightarrow> world" where
  "mark_as_synced i w =
     (if update_fails w i then logging ErrorMarkFailed w
      else emit (DbUpdate i) (w\<lparr>db := update_synced (clock w) i (db w)\<rparr>))"

text \<open>The body of the loop over the batch, for one submission.\<close>

definition sync_item ::
  "externals \<Rightarrow> settings \<Rightarrow> cloud_config \<Rightarrow> submission \<Rightarrow> world \<Rightarrow> bool \<times> world" where
  "sync_item ext cfg config s w =
     (case sync_to_cloud ext cfg config s w of
        (ok, w1) \<Rightarrow>
          (ok, sleep 1 (if ok then mark_as_synced (sub_id s) w1
                        else logging (ErrorSyncFailed (sub_id s)) w1)))"

fun sync_items ::
  "externals \<Rightarrow> settings \<Rightarrow> cloud_config \<Rightarrow> nat \<Rightarrow> submission list \<Rightarrow> world \<Rightarrow> nat \<times> world"
  where
  "sync_items ext cfg config success_count [] w = (success_count, w)"
| "sync_items ext cfg config success_count (s # rest) w =
     (case sync_item ext cfg config s w of
        (ok, w1) \<Rightarrow>
          sync_items ext cfg config (if ok then success_count + 1 else success_count) rest w1)"

text \<open>
  \<open>sync_all_pending\<close> returns the truth value the Python method returns, with the
  configuration of the manager and the world after the call.
\<close>

definition sync_all_pending ::
  "externals \<Rightarrow> settings \<Rightarrow> cloud_config \<Rightarrow> world \<Rightarrow> bool \<times> cloud_config \<times> world" where
  "sync_all_pending ext cfg config w =
     (case check_network_connection w of
        (up, w1) \<Rightarrow>
          if \<not> up then (False, config, logging WarnNetworkUnavailable w1)
          else if \<not> sync_enabled config then (False, config, logging InfoSyncDisabled w1)
          else
            case get_unsynced_submissions cfg (logging InfoSyncStart w1) of
              (submissions, w2) \<Rightarrow>
                if submissions = [] then (True, config, logging InfoNoPending w2)
                else
                  let total_count = length submissions in
                  case sync_items ext cfg config 0 submissions w2 of
                    (success_count, w3) \<Rightarrow>
                      let w4 = logging (InfoSyncDone success_count total_count) w3;
                          config' = config\<lparr>last_sync_time := Some (clock w4)\<rparr>
                      in (success_count = total_count, config', save_config config' w4))"

subsection \<open>Observers used to state the properties\<close>

text \<open>
  The results of \<open>sync_to_cloud\<close> for the items of a batch, in the order the loop
  meets them: the loop itself only keeps their count.
\<close>

fun item_outcomes ::
  "externals \<Rightarrow> settings \<Rightarrow> cloud_config \<Rightarrow> submission list \<Rightarrow> world \<Rightarrow> bool list" where
  "item_outcomes ext cfg config [] w = []"
| "item_outcomes ext cfg config (s # rest) w =
     (case sync_item ext cfg config s w of
        (ok, w1) \<Rightarrow> ok # item_outcomes ext cfg config rest w1)"

definition rows_with_id :: "nat \<Rightarrow> submission_row list \<Rightarrow> submission_row list" where
  "rows_with_id i rows = filter (\<lambda>r. row_id r = i) rows"

text \<open>The world in which the loop over the batch starts: after the probe and the query.\<close>

definition selected :: "settings \<Rightarrow> world \<Rightarrow> world" where
  "selected cfg w = snd (get_unsynced_submissions cfg (logging InfoSyncStart (emit Ping w)))"

text \<open>
  One of the next \<open>n\<close> replies is an acknowledged success, and no reply before it makes
  the handler raise an exception that is not a request exception.
\<close>

definition acknowledged :: "world \<Rightarrow> nat \<Rightarrow> bool" where
  "acknowledged w n \<longleftrightarrow>
     (\<exists>k<n. respond w (posts w + k) = Response 200 True
        \<and> (\<forall>j<k. respond w (posts w + j) \<noteq> OtherException))"

text \<open>A reply after which the delivery makes no further attempt.\<close>

definition ends_delivery :: "reply \<Rightarrow> bool" where
  "ends_delivery r \<longleftrightarrow> r = Response 200 True \<or> r = OtherException"

text \<open>
  Among the first \<open>n\<close> attempts of a delivery that starts in \<open>w\<close>, the number of those
  that meet a request exception and are not the last of the \<open>max_retries\<close> attempts.
\<close>

definition waited :: "settings \<Rightarrow> world \<Rightarrow> nat \<Rightarrow> nat" where
  "waited cfg w n =
     length (filter (\<lambda>j. respond w (posts w + j) = RequestException \<and> j < max_retries cfg - 1)
               [0 ..< n])"

subsection \<open>Concrete values for the examples\<close>

definition example_row :: "nat \<Rightarrow> nat \<Rightarrow> bool \<Rightarrow> submission_row" where
  "example_row i t synced =
     \<lparr>row_id = i, row_timestamp = t, row_form_type = ''survey'',
      row_data = [(''name'', ''Li'')], row_files = [],
      row_ip_address = Some ''192.168.150.7'', row_user_agent = None,
      synced_to_cloud = synced, sync_timestamp = (if synced then Some t else None)\<rparr>"

definition example_world :: "submission_row list \<Rightarrow> (nat \<Rightarrow> reply) \<Rightarrow> world" where
  "example_world rows r =
     \<lparr>clock = 1000, ping_ok = True, respond = r, posts = 0, select_fails = False,
      update_fails = (\<lambda>i. False), save_fault = NoFault, db = rows, config_file = NoFile,
      trace = []\<rparr>"

definition example_config :: "string \<Rightarrow> cloud_config" where
  "example_config secret =
     \<lparr>api_key = ''key'', api_secret = secret, sync_enabled = True, last_sync_time = None,
      sync_interval = 300, auto_sync = True\<rparr>"

text \<open>Stand-ins for the library functions, enough to run the examples.\<close>

definition example_ext :: externals where
  "example_ext =
     \<lparr>md5_hexdigest = (\<lambda>x. ''md5:'' @ x), json_dumps = (\<lambda>d. str_nat (submission_id d)), nodename = ''pi''\<rparr>"

text \<open>Remote services: what the \<open>k\<close>-th POST is answered.\<close>

definition always :: "reply \<Rightarrow> nat \<Rightarrow> reply" where
  "always r k = r"

definition reject_once :: "nat \<Rightarrow> reply" where
  "reject_once k = (if k = 0 then Response 200 False else Response 200 True)"

definition one_success :: "nat \<Rightarrow> reply" where
  "one_success k = (if k = 0 then Response 200 True else Response 200 False)"

definition flaky :: "nat \<Rightarrow> reply" where
  "flaky k = (if k = 0 then RequestException
              else if k = 1 then Response 500 False else Response 200 True)"

definition reject_fourth :: "nat \<Rightarrow> reply" where
  "reject_fourth k = (if 3 \<le> k \<and> k < 6 then Response 200 False else Response 200 True)"

text \<open>A table of ten rows, none synchronised, and a database that refuses the UPDATE for id 2.\<close>

definition ten_rows :: "submission_row list" where
  "ten_rows = [example_row 1 10 False, example_row 2 20 False, example_row 3 30 False,
     example_row 4 40 False, example_row 5 50 False, example_row 6 60 False,
     example_row 7 70 False, example_row 8 80 False, example_row 9 90 False,
     example_row 10 100 False]"

definition second_mark_fails :: "nat \<Rightarrow> bool" where
  "second_mark_fails i = (i = 2)"

section \<open>Properties\<close>

subsection \<open>What each operation leaves alone\<close>

lemma emit_fields [simp]:
  "clock (emit e w) = clock w" "ping_ok (emit e w) = ping_ok w"
  "respond (emit e w) = respond w" "posts (emit e w) = posts w"
  "select_fails (emit e w) = select_fails w" "update_fails (emit e w) = update_fails w"
  "save_fault (emit e w) = save_fault w" "db (emit e w) = db w"
  "config_file (emit e w) = config_file w" "trace (emit e w) = trace w @ [e]"
  by (simp_all add: emit_def)

lemma logging_fields [simp]:
  "clock (logging m w) = clock w" "ping_ok (logging m w) = ping_ok w"
  "respond (logging m w) = respond w" "posts (logging m w) = posts w"
  "select_fails (logging m w) = select_fails w" "update_fails (logging m w) = update_fails w"
  "save_fault (logging m w) = save_fault w" "db (logging m w) = db w"
  "config_file (logging m w) = config_file w" "trace (logging m w) = trace w @ [Log m]"
  by (simp_all add: logging_def)

lemma sleep_fields [simp]:
  "clock (sleep n w) = clock w + n" "ping_ok (sleep n w) = ping_ok w"
  "respond (sleep n w) = respond w" "posts (sleep n w) = posts w"
  "select_fails (sleep n w) = select_fails w" "update_fails (sleep n w) = update_fails w"
  "save_fault (sleep n w) = save_fault w" "db (sleep n w) = db w"
  "config_file (sleep n w) = config_file w" "trace (sleep n w) = trace w @ [Sleep n]"
  by (simp_all add: sleep_def)

lemma post_attempts_frame:
  "db (snd (post_attempts cfg req sid as w)) = db w
   \<and> config_file (snd (post_attempts cfg req sid as w)) = config_file w
   \<and> respond (snd (post_attempts cfg req sid as w)) = respond w
   \<and> update_fails (snd (post_attempts cfg req sid as w)) = update_fails w
   \<and> save_fault (snd (post_attempts cfg req sid as w)) = save_fault w
   \<and> select_fails (snd (post_attempts cfg req sid as w)) = select_fails w
   \<and> ping_ok (snd (post_attempts cfg req sid as w)) = ping_ok w"
proof (induction as arbitrary: w)
  case Nil
  show ?case by simp
next
  case (Cons a as)
  show ?case
    by (cases "respond w (posts w)") (simp_all add: Let_def Cons.IH)
qed

lemma sync_to_cloud_frame:
  "db (snd (sync_to_cloud ext cfg config s w)) = db w
   \<and> config_file (snd (sync_to_cloud ext cfg config s w)) = config_file w
   \<and> respond (snd (sync_to_cloud ext cfg config s w)) = respond w
   \<and> update_fails (snd (sync_to_cloud ext cfg config s w)) = update_fails w
   \<and> save_fault (snd (sync_to_cloud ext cfg config s w)) = save_fault w
   \<and> select_fails (snd (sync_to_cloud ext cfg config s w)) = select_fails w
   \<and> ping_ok (snd (sync_to_cloud ext cfg config s w)) = ping_ok w"
  by (simp add: sync_to_cloud_def Let_def post_attempts_frame split: option.split)

lemma mark_as_synced_fields [simp]:
  "clock (mark_as_synced i w) = clock w" "ping_ok (mark_as_synced i w) = ping_ok w"
  "respond (mark_as_synced i w) = respond w" "posts (mark_as_synced i w) = posts w"
  "select_fails (mark_as_synced i w) = select_fails w"
  "update_fails (mark_as_synced i w) = update_fails w"
  "save_fault (mark_as_synced i w) = save_fault w"
  "config_file (mark_as_synced i w) = config_file w"
  "db (mark_as_synced i w) = (if update_fails w i then db w else update_synced (clock w) i (db w))"
  by (simp_all add: mark_as_synced_def)

lemma sync_item_frame:
  "config_file (snd (sync_item ext cfg config s w)) = config_file w
   \<and> respond (snd (sync_item ext cfg config s w)) = respond w
   \<and> update_fails (snd (sync_item ext cfg config s w)) = update_fails w
   \<and> save_fault (snd (sync_item ext cfg config s w)) = save_fault w
   \<and> select_fails (snd (sync_item ext cfg config s w)) = select_fails w
   \<and> ping_ok (snd (sync_item ext cfg config s w)) = ping_ok w"
  using sync_to_cloud_frame [of ext cfg config s w]
  by (cases "sync_to_cloud ext cfg config s w") (auto simp: sync_item_def)

lemma sync_item_fst: "fst (sync_item ext cfg config s w) = fst (sync_to_cloud ext cfg config s w)"
  by (cases "sync_to_cloud ext cfg config s w") (simp add: sync_item_def)

lemma sync_item_db:
  "db (snd (sync_item ext cfg config s w)) =
     (if fst (sync_item ext cfg config s w) \<and> \<not> update_fails w (sub_id s)
      then update_synced (clock (snd (sync_to_cloud ext cfg config s w))) (sub_id s) (db w)
      else db w)"
  using sync_to_cloud_frame [of ext cfg config s w]
  by (cases "sync_to_cloud ext cfg config s w") (auto simp: sync_item_def)

lemma sync_items_frame:
  "config_file (snd (sync_items ext cfg config n subs w)) = config_file w
   \<and> respond (snd (sync_items ext cfg config n subs w)) = respond w
   \<and> update_fails (snd (sync_items ext cfg config n subs w)) = update_fails w
   \<and> save_fault (snd (sync_items ext cfg config n subs w)) = save_fault w
   \<and> select_fails (snd (sync_items ext cfg config n subs w)) = select_fails w
   \<and> ping_ok (snd (sync_items ext cfg config n subs w)) = ping_ok w"
proof (induction subs arbitrary: n w)
  case Nil
  show ?case by simp
next
  case (Cons s subs)
  show ?case
    using sync_item_frame [of ext cfg config s w]
    by (cases "sync_item ext cfg config s w") (simp add: Cons.IH)
qed

lemma length_item_outcomes: "length (item_outcomes ext cfg config subs w) = length subs"
proof (induction subs arbitrary: w)
  case Nil
  show ?case by simp
next
  case (Cons s subs)
  show ?case by (cases "sync_item ext cfg config s w") (simp add: Cons.IH)
qed

lemma sync_items_count:
  "fst (sync_items ext cfg config n subs w)
     = n + length (filter (\<lambda>ok. ok) (item_outcomes ext cfg config subs w))"
proof (induction subs arbitrary: n w)
  case Nil
  show ?case by simp
next
  case (Cons s subs)
  show ?case by (cases "sync_item ext cfg config s w") (simp add: Cons.IH)
qed

subsection \<open>Unfolding the model on concrete inputs\<close>

lemma upt3: "[0 ..< 3] = [0, 1, 2]"
  by (simp add: upt_rec)

lemmas run_defs = sync_item_def sync_to_cloud_def generate_signature_def mark_as_synced_def
  example_ext_def
  update_synced_def example_world_def example_config_def example_row_def CONFIG_def
  to_submission_def upt3 Let_def rows_with_id_def

lemmas cycle_defs = sync_all_pending_def check_network_connection_def
  get_unsynced_submissions_def select_unsynced_def

lemma save_config_fields [simp]:
  "clock (save_config c w) = clock w" "posts (save_config c w) = posts w"
  "db (save_config c w) = db w"
  "config_file (save_config c w)
     = (case save_fault w of NoFault \<Rightarrow> Holds c | FailsBeforeWrite \<Rightarrow> config_file w
        | FailsWhileWriting \<Rightarrow> Damaged)"
  "trace (save_config c w)
     = trace w @ (case save_fault w of NoFault \<Rightarrow> [ConfigWrite c]
                  | FailsBeforeWrite \<Rightarrow> [Log ErrorSaveConfigFailed]
                  | FailsWhileWriting \<Rightarrow> [ConfigTruncate, Log ErrorSaveConfigFailed])"
  by (simp_all add: save_config_def split: write_fault.split)

lemma get_unsynced_submissions_fst [simp]:
  "fst (get_unsynced_submissions cfg (emit e w)) = fst (get_unsynced_submissions cfg w)"
  "fst (get_unsynced_submissions cfg (logging m w)) = fst (get_unsynced_submissions cfg w)"
  by (simp_all add: get_unsynced_submissions_def)

lemma get_unsynced_submissions_fields [simp]:
  "clock (snd (get_unsynced_submissions cfg w)) = clock w"
  "posts (snd (get_unsynced_submissions cfg w)) = posts w"
  "db (snd (get_unsynced_submissions cfg w)) = db w"
  "config_file (snd (get_unsynced_submissions cfg w)) = config_file w"
  "save_fault (snd (get_unsynced_submissions cfg w)) = save_fault w"
  "update_fails (snd (get_unsynced_submissions cfg w)) = update_fails w"
  "respond (snd (get_unsynced_submissions cfg w)) = respond w"
  "trace (snd (get_unsynced_submissions cfg w))
     = trace w @ [if select_fails w then Log ErrorSelectFailed else DbSelect]"
  by (simp_all add: get_unsynced_submissions_def)

subsection \<open>Selecting the batch\<close>

lemma select_unsynced_length: "length (select_unsynced limit rows) \<le> limit"
  by (simp add: select_unsynced_def)

lemma select_unsynced_subset:
  "set (select_unsynced limit rows) \<subseteq> {r \<in> set rows. \<not> synced_to_cloud r}"
proof -
  have "set (select_unsynced limit rows)
        \<subseteq> set (sort_key row_timestamp (filter (\<lambda>r. \<not> synced_to_cloud r) rows))"
    unfolding select_unsynced_def by (rule set_take_subset)
  then show ?thesis by auto
qed

lemma select_unsynced_sorted: "sorted (map row_timestamp (select_unsynced limit rows))"
  unfolding select_unsynced_def take_map [symmetric]
  by (rule sorted_wrt_take) (rule sorted_sort_key)

lemma sub_timestamp_to_submission: "sub_timestamp \<circ> to_submission = row_timestamp"
  by (simp add: fun_eq_iff to_submission_def)

text \<open>
  Claim C7. Whatever the table holds and whatever the limit is,
  \<open>get_unsynced_submissions\<close> returns at most \<open>batch_size\<close> submissions, each of them
  built from a row of the table whose \<open>synced_to_cloud\<close> flag is false, in ascending
  order of their timestamps (oldest first).
\<close>

theorem get_unsynced_submissions_batch:
  "length (fst (get_unsynced_submissions cfg w)) \<le> batch_size cfg
   \<and> (\<forall>s \<in> set (fst (get_unsynced_submissions cfg w)).
         \<exists>r \<in> set (db w). \<not> synced_to_cloud r \<and> s = to_submission r)
   \<and> sorted (map sub_timestamp (fst (get_unsynced_submissions cfg w)))"
proof (cases "select_fails w")
  case True
  then show ?thesis by (simp add: get_unsynced_submissions_def)
next
  case False
  have a: "length (fst (get_unsynced_submissions cfg w)) \<le> batch_size cfg"
    using False by (simp add: get_unsynced_submissions_def select_unsynced_length)
  have b: "\<forall>s \<in> set (fst (get_unsynced_submissions cfg w)).
         \<exists>r \<in> set (db w). \<not> synced_to_cloud r \<and> s = to_submission r"
    using False select_unsynced_subset [of "batch_size cfg" "db w"]
    by (auto simp: get_unsynced_submissions_def)
  have c: "sorted (map sub_timestamp (fst (get_unsynced_submissions cfg w)))"
    using False
    by (simp add: get_unsynced_submissions_def sub_timestamp_to_submission select_unsynced_sorted)
  from a b c show ?thesis by blast
qed

text \<open>
  A table of three rows, the second one already synchronised: the batch is the third row
  and then the first, and the theorem applies to it.
\<close>

theorem get_unsynced_submissions_batch_witness:
  "map sub_id (fst (get_unsynced_submissions CONFIG
       (example_world [example_row 1 50 False, example_row 2 20 True, example_row 3 30 False]
          (\<lambda>k. RequestException)))) = [3, 1]
   \<and> length (fst (get_unsynced_submissions CONFIG
       (example_world [example_row 1 50 False, example_row 2 20 True, example_row 3 30 False]
          (\<lambda>k. RequestException)))) \<le> batch_size CONFIG
   \<and> sorted (map sub_timestamp (fst (get_unsynced_submissions CONFIG
       (example_world [example_row 1 50 False, example_row 2 20 True, example_row 3 30 False]
          (\<lambda>k. RequestException)))))"
proof -
  have ids: "map sub_id (fst (get_unsynced_submissions CONFIG
       (example_world [example_row 1 50 False, example_row 2 20 True, example_row 3 30 False]
          (\<lambda>k. RequestException)))) = [3, 1]"
    by (simp add: get_unsynced_submissions_def select_unsynced_def example_world_def
        example_row_def to_submission_def CONFIG_def)
  show ?thesis
    using ids get_unsynced_submissions_batch [of CONFIG
        "example_world [example_row 1 50 False, example_row 2 20 True, example_row 3 30 False]
           (\<lambda>k. RequestException)"]
    by blast
qed

subsection \<open>The signature\<close>

text \<open>
  Claim C8. The signature is a function of the payload, the timestamp and the secret
  alone: two calls that agree on these three, with a secret that is not empty, return
  the same signature, whatever else the configuration holds, and they do return one.
\<close>

theorem generate_signature_deterministic:
  "api_secret c1 = api_secret c2 \<Longrightarrow> api_secret c1 \<noteq> [] \<Longrightarrow>
     generate_signature ext c1 d ts = generate_signature ext c2 d ts
     \<and> generate_signature ext c1 d ts
         = Some (md5_hexdigest ext (json_dumps ext d @ str_nat ts @ api_secret c1))"
  by (simp add: generate_signature_def Let_def)

theorem generate_signature_deterministic_witness:
  "api_secret (example_config ''s3cret'')
     = api_secret ((example_config ''s3cret'')\<lparr>api_key := ''other'', sync_enabled := False\<rparr>)
   \<and> api_secret (example_config ''s3cret'') \<noteq> []
   \<and> generate_signature example_ext (example_config ''s3cret'')
        (build_sync_data example_ext (to_submission (example_row 1 50 False))) 1000
     = generate_signature example_ext
        ((example_config ''s3cret'')\<lparr>api_key := ''other'', sync_enabled := False\<rparr>)
        (build_sync_data example_ext (to_submission (example_row 1 50 False))) 1000"
proof -
  have h1: "api_secret (example_config ''s3cret'')
     = api_secret ((example_config ''s3cret'')\<lparr>api_key := ''other'', sync_enabled := False\<rparr>)"
    by (simp add: example_config_def)
  have h2: "api_secret (example_config ''s3cret'') \<noteq> []"
    by (simp add: example_config_def)
  show ?thesis
    using h1 h2 generate_signature_deterministic [OF h1 h2, of example_ext
        "build_sync_data example_ext (to_submission (example_row 1 50 False))" 1000]
    by simp
qed

subsection \<open>Marking a submission\<close>

lemma update_synced_twice:
  "update_synced t2 i (update_synced t1 i rows) = update_synced t2 i rows"
  by (induction rows) (simp_all add: update_synced_def)

lemma update_synced_flags:
  "map synced_to_cloud (update_synced t2 i rows) = map synced_to_cloud (update_synced t1 i rows)"
  by (induction rows) (simp_all add: update_synced_def)

text \<open>
  Against claim C1 as it is stated: a row marked at time 1000 and marked again at time
  2000 carries the second time in \<open>sync_timestamp\<close>, so the table after two
  applications differs from the table after one.
\<close>

theorem mark_as_synced_overwrites:
  "map sync_timestamp
     (db (mark_as_synced 1 (example_world [example_row 1 50 False] (\<lambda>k. RequestException))))
     = [Some 1000]
   \<and> map sync_timestamp
       (db (mark_as_synced 1
         ((mark_as_synced 1 (example_world [example_row 1 50 False] (\<lambda>k. RequestException)))
            \<lparr>clock := 2000\<rparr>)))
     = [Some 2000]
   \<and> db (mark_as_synced 1
         ((mark_as_synced 1 (example_world [example_row 1 50 False] (\<lambda>k. RequestException)))
            \<lparr>clock := 2000\<rparr>))
     \<noteq> db (mark_as_synced 1 (example_world [example_row 1 50 False] (\<lambda>k. RequestException)))"
  by (simp add: mark_as_synced_def emit_def update_synced_def example_world_def example_row_def)

text \<open>
  Claim C1, amended. Marking an id that is already marked is not an error and leaves the
  \<open>synced_to_cloud\<close> flag of every row as the first application set it, but it writes
  \<open>sync_timestamp\<close> again: after a second application at time \<open>t\<close> the table is the one
  a single application at time \<open>t\<close> gives.
\<close>

theorem mark_as_synced_again:
  "\<not> update_fails w i \<Longrightarrow>
     db (mark_as_synced i ((mark_as_synced i w)\<lparr>clock := t\<rparr>)) = update_synced t i (db w)
     \<and> db (mark_as_synced i ((mark_as_synced i w)\<lparr>clock := t\<rparr>))
         = db (mark_as_synced i (w\<lparr>clock := t\<rparr>))
     \<and> map synced_to_cloud (db (mark_as_synced i ((mark_as_synced i w)\<lparr>clock := t\<rparr>)))
         = map synced_to_cloud (db (mark_as_synced i w))"
  by (simp add: mark_as_synced_def emit_def update_synced_twice update_synced_flags)

theorem mark_as_synced_again_witness:
  "\<not> update_fails (example_world [example_row 1 50 False, example_row 2 60 False]
        (\<lambda>k. RequestException)) 1
   \<and> db (mark_as_synced 1
         ((mark_as_synced 1 (example_world [example_row 1 50 False, example_row 2 60 False]
             (\<lambda>k. RequestException)))\<lparr>clock := 2000\<rparr>))
       = update_synced 2000 1 [example_row 1 50 False, example_row 2 60 False]
   \<and> map synced_to_cloud (db (mark_as_synced 1
         ((mark_as_synced 1 (example_world [example_row 1 50 False, example_row 2 60 False]
             (\<lambda>k. RequestException)))\<lparr>clock := 2000\<rparr>)))
       = [True, False]"
proof -
  have h: "\<not> update_fails (example_world [example_row 1 50 False, example_row 2 60 False]
        (\<lambda>k. RequestException)) 1"
    by (simp add: example_world_def)
  have flags: "map synced_to_cloud (db (mark_as_synced 1
      (example_world [example_row 1 50 False, example_row 2 60 False] (\<lambda>k. RequestException))))
      = [True, False]"
    by (simp add: mark_as_synced_def emit_def update_synced_def example_world_def
        example_row_def)
  have rows: "db (example_world [example_row 1 50 False, example_row 2 60 False]
        (\<lambda>k. RequestException)) = [example_row 1 50 False, example_row 2 60 False]"
    by (simp add: example_world_def)
  note again = mark_as_synced_again [OF h, of 2000]
  have a: "db (mark_as_synced 1
         ((mark_as_synced 1 (example_world [example_row 1 50 False, example_row 2 60 False]
             (\<lambda>k. RequestException)))\<lparr>clock := 2000\<rparr>))
       = update_synced 2000 1 [example_row 1 50 False, example_row 2 60 False]"
    using again [THEN conjunct1] unfolding rows .
  have b: "map synced_to_cloud (db (mark_as_synced 1
         ((mark_as_synced 1 (example_world [example_row 1 50 False, example_row 2 60 False]
             (\<lambda>k. RequestException)))\<lparr>clock := 2000\<rparr>)))
       = [True, False]"
    using again [THEN conjunct2, THEN conjunct2] unfolding flags .
  from h a b show ?thesis by blast
qed

subsection \<open>A cycle that is skipped\<close>

text \<open>
  Claim C4. When the connectivity check fails or \<open>sync_enabled\<close> is false,
  \<open>sync_all_pending\<close> returns \<open>False\<close> and changes nothing: the configuration of the
  manager (with its \<open>last_sync_time\<close>) is the one it had, and the world is the one it
  was, table and configuration file included, except that the trace has gained the
  probe and one log line.
\<close>

theorem sync_all_pending_skipped:
  "\<not> ping_ok w \<or> \<not> sync_enabled config \<Longrightarrow>
     sync_all_pending ext cfg config w =
       (False, config,
        w\<lparr>trace := trace w @ [Ping, Log (if \<not> ping_ok w then WarnNetworkUnavailable
                                          else InfoSyncDisabled)]\<rparr>)"
  by (auto simp: sync_all_pending_def check_network_connection_def logging_def emit_def)

theorem sync_all_pending_skipped_witness:
  "\<not> sync_enabled ((example_config ''s3cret'')\<lparr>sync_enabled := False\<rparr>)
   \<and> fst (sync_all_pending example_ext CONFIG
            ((example_config ''s3cret'')\<lparr>sync_enabled := False\<rparr>)
            (example_world [example_row 1 50 False] (\<lambda>k. Response 200 True))) = False
   \<and> last_sync_time (fst (snd (sync_all_pending example_ext CONFIG
            ((example_config ''s3cret'')\<lparr>sync_enabled := False\<rparr>)
            (example_world [example_row 1 50 False] (\<lambda>k. Response 200 True))))) = None
   \<and> map synced_to_cloud (db (snd (snd (sync_all_pending example_ext CONFIG
            ((example_config ''s3cret'')\<lparr>sync_enabled := False\<rparr>)
            (example_world [example_row 1 50 False] (\<lambda>k. Response 200 True)))))) = [False]
   \<and> trace (snd (snd (sync_all_pending example_ext CONFIG
            ((example_config ''s3cret'')\<lparr>sync_enabled := False\<rparr>)
            (example_world [example_row 1 50 False] (\<lambda>k. Response 200 True)))))
       = [Ping, Log InfoSyncDisabled]"
proof -
  have h: "\<not> ping_ok (example_world [example_row 1 50 False] (\<lambda>k. Response 200 True))
     \<or> \<not> sync_enabled ((example_config ''s3cret'')\<lparr>sync_enabled := False\<rparr>)"
    by (simp add: example_config_def)
  show ?thesis
    using h sync_all_pending_skipped [OF h, of example_ext CONFIG]
    by (simp add: example_world_def example_config_def example_row_def)
qed

subsection \<open>The attempts of one delivery\<close>

lemma post_attempts_posts:
  "posts (snd (post_attempts cfg req sid as w)) \<le> posts w + length as"
proof (induction as arbitrary: w)
  case Nil
  show ?case by simp
next
  case (Cons a as)
  note IH = Cons.IH
  show ?case
  proof (cases "respond w (posts w)")
    case (Response status ok)
    then show ?thesis
      using IH [of "logging ErrorCloud (emit (HttpPost req) (w\<lparr>posts := Suc (posts w)\<rparr>))"]
        IH [of "logging (ErrorHttp status) (emit (HttpPost req) (w\<lparr>posts := Suc (posts w)\<rparr>))"]
      by (simp add: Let_def)
  next
    case RequestException
    then show ?thesis
      using IH [of "sleep (retry_delay cfg) (logging (ErrorRequestFailed (a + 1) (max_retries cfg))
                 (emit (HttpPost req) (w\<lparr>posts := Suc (posts w)\<rparr>)))"]
        IH [of "logging (ErrorRequestFailed (a + 1) (max_retries cfg))
                 (emit (HttpPost req) (w\<lparr>posts := Suc (posts w)\<rparr>))"]
      by (simp add: Let_def)
  next
    case OtherException
    then show ?thesis by (simp add: Let_def)
  qed
qed

lemma acknowledged_step:
  assumes "respond w' = respond w" "posts w' = Suc (posts w)"
    and "respond w (posts w) \<noteq> Response 200 True" "respond w (posts w) \<noteq> OtherException"
  shows "acknowledged w (Suc n) \<longleftrightarrow> acknowledged w' n"
proof
  assume "acknowledged w (Suc n)"
  then obtain k where k: "k < Suc n" "respond w (posts w + k) = Response 200 True"
    "\<forall>j<k. respond w (posts w + j) \<noteq> OtherException"
    unfolding acknowledged_def by blast
  from k(2) assms(3) have "k \<noteq> 0" by (cases k) auto
  then obtain k' where k': "k = Suc k'" by (cases k) auto
  have "k' < n" using k(1) k' by simp
  moreover have "respond w' (posts w' + k') = Response 200 True"
    using k(2) k' assms(1,2) by simp
  moreover have "\<forall>j<k'. respond w' (posts w' + j) \<noteq> OtherException"
  proof (intro allI impI)
    fix j assume "j < k'"
    then have "Suc j < k" using k' by simp
    with k(3) have "respond w (posts w + Suc j) \<noteq> OtherException" by blast
    then show "respond w' (posts w' + j) \<noteq> OtherException" using assms(1,2) by simp
  qed
  ultimately show "acknowledged w' n" unfolding acknowledged_def by blast
next
  assume "acknowledged w' n"
  then obtain k where k: "k < n" "respond w' (posts w' + k) = Response 200 True"
    "\<forall>j<k. respond w' (posts w' + j) \<noteq> OtherException"
    unfolding acknowledged_def by blast
  have "Suc k < Suc n" using k(1) by simp
  moreover have "respond w (posts w + Suc k) = Response 200 True"
    using k(2) assms(1,2) by simp
  moreover have "\<forall>j<Suc k. respond w (posts w + j) \<noteq> OtherException"
  proof (intro allI impI)
    fix j assume j: "j < Suc k"
    show "respond w (posts w + j) \<noteq> OtherException"
    proof (cases j)
      case 0
      then show ?thesis using assms(4) by simp
    next
      case (Suc j')
      then have "j' < k" using j by simp
      with k(3) have "respond w' (posts w' + j') \<noteq> OtherException" by blast
      then show ?thesis using assms(1,2) Suc by simp
    qed
  qed
  ultimately show "acknowledged w (Suc n)" unfolding acknowledged_def by blast
qed

lemma acknowledged_now:
  "respond w (posts w) = Response 200 True \<Longrightarrow> acknowledged w (Suc n)"
  unfolding acknowledged_def by (rule exI [of _ 0]) simp

lemma acknowledged_crash:
  assumes "respond w (posts w) = OtherException"
  shows "\<not> acknowledged w n"
proof
  assume "acknowledged w n"
  then obtain k where k: "respond w (posts w + k) = Response 200 True"
    "\<forall>j<k. respond w (posts w + j) \<noteq> OtherException"
    unfolding acknowledged_def by blast
  show False
  proof (cases k)
    case 0
    with k(1) assms show False by simp
  next
    case (Suc k')
    with k(2) have "respond w (posts w + 0) \<noteq> OtherException" by blast
    with assms show False by simp
  qed
qed

lemma post_attempts_delivered:
  "fst (post_attempts cfg req sid as w) \<longleftrightarrow> acknowledged w (length as)"
proof (induction as arbitrary: w)
  case Nil
  show ?case by (simp add: acknowledged_def)
next
  case (Cons a as)
  note IH = Cons.IH
  let ?w1 = "emit (HttpPost req) (w\<lparr>posts := Suc (posts w)\<rparr>)"
  show ?case
  proof (cases "respond w (posts w)")
    case (Response status ok)
    show ?thesis
    proof (cases "status = 200 \<and> ok")
      case True
      then show ?thesis using Response acknowledged_now [of w "length as"]
        by (simp add: Let_def)
    next
      case False
      have ne: "respond w (posts w) \<noteq> Response 200 True" "respond w (posts w) \<noteq> OtherException"
        using Response False by auto
      have a: "acknowledged w (Suc (length as)) \<longleftrightarrow> acknowledged (logging ErrorCloud ?w1) (length as)"
        by (rule acknowledged_step [OF _ _ ne]) simp_all
      have b: "acknowledged w (Suc (length as))
                 \<longleftrightarrow> acknowledged (logging (ErrorHttp status) ?w1) (length as)"
        by (rule acknowledged_step [OF _ _ ne]) simp_all
      show ?thesis using Response False a b IH by (auto simp: Let_def)
    qed
  next
    case RequestException
    have ne: "respond w (posts w) \<noteq> Response 200 True" "respond w (posts w) \<noteq> OtherException"
      using RequestException by auto
    let ?w2 = "logging (ErrorRequestFailed (a + 1) (max_retries cfg)) ?w1"
    have a: "acknowledged w (Suc (length as)) \<longleftrightarrow> acknowledged ?w2 (length as)"
      by (rule acknowledged_step [OF _ _ ne]) simp_all
    have b: "acknowledged w (Suc (length as))
               \<longleftrightarrow> acknowledged (sleep (retry_delay cfg) ?w2) (length as)"
      by (rule acknowledged_step [OF _ _ ne]) simp_all
    show ?thesis using RequestException a b IH by (simp add: Let_def)
  next
    case OtherException
    then show ?thesis using acknowledged_crash [of w "Suc (length as)"] by (simp add: Let_def)
  qed
qed

lemma post_attempts_no_wait:
  "(\<forall>k<length as. respond w (posts w + k) \<noteq> RequestException) \<Longrightarrow>
     clock (snd (post_attempts cfg req sid as w)) = clock w"
proof (induction as arbitrary: w)
  case Nil
  show ?case by simp
next
  case (Cons a as)
  let ?w1 = "emit (HttpPost req) (w\<lparr>posts := Suc (posts w)\<rparr>)"
  have now: "respond w (posts w) \<noteq> RequestException"
    using Cons.prems by (auto dest: spec [of _ 0])
  have later: "\<forall>k<length as. respond w (Suc (posts w) + k) \<noteq> RequestException"
  proof (intro allI impI)
    fix k assume "k < length as"
    then have "Suc k < length (a # as)" by simp
    with Cons.prems have "respond w (posts w + Suc k) \<noteq> RequestException" by blast
    then show "respond w (Suc (posts w) + k) \<noteq> RequestException" by simp
  qed
  show ?case
  proof (cases "respond w (posts w)")
    case (Response status ok)
    then show ?thesis
      using later Cons.IH [of "logging ErrorCloud ?w1"]
        Cons.IH [of "logging (ErrorHttp status) ?w1"]
      by (simp add: Let_def)
  next
    case RequestException
    with now show ?thesis by simp
  next
    case OtherException
    then show ?thesis by (simp add: Let_def)
  qed
qed

lemma post_attempts_wait_bound:
  "clock (snd (post_attempts cfg req sid as w))
     \<le> clock w + retry_delay cfg * length (filter (\<lambda>a. a < max_retries cfg - 1) as)"
proof (induction as arbitrary: w)
  case Nil
  show ?case by simp
next
  case (Cons a as)
  let ?w1 = "emit (HttpPost req) (w\<lparr>posts := Suc (posts w)\<rparr>)"
  let ?w2 = "logging (ErrorRequestFailed (a + 1) (max_retries cfg)) ?w1"
  show ?case
  proof (cases "respond w (posts w)")
    case (Response status ok)
    then show ?thesis
      using Cons.IH [of "logging ErrorCloud ?w1"] Cons.IH [of "logging (ErrorHttp status) ?w1"]
      by (auto simp: Let_def intro: le_trans [OF _ add_left_mono])
  next
    case RequestException
    then show ?thesis
      using Cons.IH [of ?w2] Cons.IH [of "sleep (retry_delay cfg) ?w2"]
      by (simp add: Let_def)
  next
    case OtherException
    then show ?thesis by (simp add: Let_def)
  qed
qed

lemma length_filter_upt: "length (filter (\<lambda>a. a < m - 1) [0 ..< m]) = m - 1"
proof -
  have "filter (\<lambda>a. a < m - 1) [0 ..< m] = [0 ..< m - 1]"
    by (induction m) (auto simp: less_Suc_eq)
  then show ?thesis by simp
qed

lemma post_attempts_stop:
  assumes "ends_delivery (respond w (posts w))"
  shows "posts (snd (post_attempts cfg req sid (a # as) w)) = Suc (posts w)
     \<and> clock (snd (post_attempts cfg req sid (a # as) w)) = clock w"
  using assms by (auto simp: ends_delivery_def Let_def)

lemma post_attempts_continue:
  assumes "\<not> ends_delivery (respond w (posts w))"
  shows "\<exists>w1. post_attempts cfg req sid (a # as) w = post_attempts cfg req sid as w1
     \<and> respond w1 = respond w \<and> posts w1 = Suc (posts w)
     \<and> clock w1 = clock w + (if respond w (posts w) = RequestException \<and> a < max_retries cfg - 1
                              then retry_delay cfg else 0)"
proof (cases "respond w (posts w)")
  case (Response status ok)
  let ?w1 = "emit (HttpPost req) (w\<lparr>posts := Suc (posts w)\<rparr>)"
  show ?thesis
  proof (cases "status = 200")
    case True
    then have "\<not> ok" using assms Response by (simp add: ends_delivery_def)
    then show ?thesis using Response True
      by (intro exI [of _ "logging ErrorCloud ?w1"]) (simp add: Let_def)
  next
    case False
    then show ?thesis using Response
      by (intro exI [of _ "logging (ErrorHttp status) ?w1"]) (simp add: Let_def)
  qed
next
  case RequestException
  let ?w2 = "logging (ErrorRequestFailed (a + 1) (max_retries cfg))
               (emit (HttpPost req) (w\<lparr>posts := Suc (posts w)\<rparr>))"
  show ?thesis using RequestException
    by (intro exI [of _ "if a < max_retries cfg - 1 then sleep (retry_delay cfg) ?w2 else ?w2"])
      (simp add: Let_def)
next
  case OtherException
  then show ?thesis using assms by (simp add: ends_delivery_def)
qed

lemma post_attempts_posts_mono:
  "posts w \<le> posts (snd (post_attempts cfg req sid as w))"
proof (induction as arbitrary: w)
  case Nil
  show ?case by simp
next
  case (Cons a as)
  show ?case
  proof (cases "ends_delivery (respond w (posts w))")
    case True
    then show ?thesis using post_attempts_stop [of w cfg req sid a as] by simp
  next
    case False
    then obtain w1 where w1: "post_attempts cfg req sid (a # as) w = post_attempts cfg req sid as w1"
      "posts w1 = Suc (posts w)"
      using post_attempts_continue [of w cfg req sid a as] by blast
    show ?thesis using Cons.IH [of w1] w1 by simp
  qed
qed

lemma length_filter_upt_Suc:
  "length (filter P [0 ..< Suc n])
     = (if P 0 then 1 else 0) + length (filter (\<lambda>j. P (Suc j)) [0 ..< n])"
proof -
  have "[0 ..< Suc n] = 0 # map Suc [0 ..< n]"
    by (simp add: upt_conv_Cons map_Suc_upt del: upt_Suc)
  then show ?thesis by (simp add: filter_map o_def del: upt_Suc)
qed

text \<open>The general loop, the j-th attempt carrying the attempt number as ! j.\<close>

lemma post_attempts_clock:
  "clock (snd (post_attempts cfg req sid as w))
     = clock w + retry_delay cfg *
         length (filter (\<lambda>j. respond w (posts w + j) = RequestException
                              \<and> as ! j < max_retries cfg - 1)
                   [0 ..< posts (snd (post_attempts cfg req sid as w)) - posts w])"
proof (induction as arbitrary: w)
  case Nil
  show ?case by simp
next
  case (Cons a as)
  show ?case
  proof (cases "ends_delivery (respond w (posts w))")
    case True
    have "respond w (posts w) \<noteq> RequestException"
      using True by (auto simp: ends_delivery_def)
    then show ?thesis using post_attempts_stop [OF True, of cfg req sid a as] by simp
  next
    case False
    then obtain w1 where w1: "post_attempts cfg req sid (a # as) w = post_attempts cfg req sid as w1"
      "respond w1 = respond w" "posts w1 = Suc (posts w)"
      "clock w1 = clock w + (if respond w (posts w) = RequestException \<and> a < max_retries cfg - 1
                              then retry_delay cfg else 0)"
      using post_attempts_continue [of w cfg req sid a as] by blast
    let ?w' = "snd (post_attempts cfg req sid as w1)"
    have mono: "Suc (posts w) \<le> posts ?w'"
      using post_attempts_posts_mono [of w1 cfg req sid as] w1(3) by simp
    then have n: "posts ?w' - posts w = Suc (posts ?w' - posts w1)"
      using w1(3) by simp
    have "clock ?w' = clock w1 + retry_delay cfg *
         length (filter (\<lambda>j. respond w1 (posts w1 + j) = RequestException
                              \<and> as ! j < max_retries cfg - 1)
                   [0 ..< posts ?w' - posts w1])"
      by (rule Cons.IH)
    then show ?thesis
      unfolding w1(1) n length_filter_upt_Suc
      by (simp add: w1(2,3,4) algebra_simps)
  qed
qed

lemma post_attempts_count:
  "posts (snd (post_attempts cfg req sid as w)) - posts w \<le> length as
   \<and> (\<forall>j. Suc j < posts (snd (post_attempts cfg req sid as w)) - posts w \<longrightarrow>
          \<not> ends_delivery (respond w (posts w + j)))
   \<and> (posts (snd (post_attempts cfg req sid as w)) - posts w < length as \<longrightarrow>
          0 < posts (snd (post_attempts cfg req sid as w)) - posts w
          \<and> ends_delivery (respond w (posts w
               + (posts (snd (post_attempts cfg req sid as w)) - posts w - 1))))"
proof (induction as arbitrary: w)
  case Nil
  show ?case by simp
next
  case (Cons a as)
  show ?case
  proof (cases "ends_delivery (respond w (posts w))")
    case True
    then show ?thesis using post_attempts_stop [OF True, of cfg req sid a as] by simp
  next
    case False
    then obtain w1 where w1: "post_attempts cfg req sid (a # as) w = post_attempts cfg req sid as w1"
      "respond w1 = respond w" "posts w1 = Suc (posts w)"
      using post_attempts_continue [of w cfg req sid a as] by blast
    let ?w' = "snd (post_attempts cfg req sid as w1)"
    let ?n = "posts ?w' - posts w1"
    have mono: "Suc (posts w) \<le> posts ?w'"
      using post_attempts_posts_mono [of w1 cfg req sid as] w1(3) by simp
    then have n: "posts ?w' - posts w = Suc ?n"
      using w1(3) by simp
    note IH = Cons.IH [of w1]
    have a: "Suc ?n \<le> length (a # as)" using IH by simp
    have b: "\<forall>j. Suc j < Suc ?n \<longrightarrow> \<not> ends_delivery (respond w (posts w + j))"
    proof (intro allI impI)
      fix j assume j: "Suc j < Suc ?n"
      show "\<not> ends_delivery (respond w (posts w + j))"
      proof (cases j)
        case 0
        then show ?thesis using False by simp
      next
        case (Suc j')
        then have "Suc j' < ?n" using j by simp
        then have "\<not> ends_delivery (respond w1 (posts w1 + j'))" using IH by blast
        then show ?thesis using Suc w1(2,3) by simp
      qed
    qed
    have c: "Suc ?n < length (a # as) \<longrightarrow>
          0 < Suc ?n \<and> ends_delivery (respond w (posts w + (Suc ?n - 1)))"
    proof
      assume "Suc ?n < length (a # as)"
      then have "?n < length as" by simp
      then have pos: "0 < ?n" and e: "ends_delivery (respond w1 (posts w1 + (?n - 1)))"
        using IH by blast+
      have "posts w1 + (?n - 1) = posts w + ?n" using pos w1(3) by simp
      then show "0 < Suc ?n \<and> ends_delivery (respond w (posts w + (Suc ?n - 1)))"
        using e w1(2) by simp
    qed
    show ?thesis unfolding w1(1) n using a b c by blast
  qed
qed

lemma waited_upt:
  assumes "n \<le> m"
  shows "length (filter (\<lambda>j. respond w (posts w + j) = RequestException
                              \<and> [0 ..< m] ! j < max_retries cfg - 1) [0 ..< n])
           = waited cfg w n"
proof -
  have "filter (\<lambda>j. respond w (posts w + j) = RequestException
                              \<and> [0 ..< m] ! j < max_retries cfg - 1) [0 ..< n]
        = filter (\<lambda>j. respond w (posts w + j) = RequestException \<and> j < max_retries cfg - 1)
            [0 ..< n]"
    using assms by (intro filter_cong refl) simp
  then show ?thesis by (simp add: waited_def)
qed

lemma waited_none:
  "(\<forall>j<n. respond w (posts w + j) \<noteq> RequestException) \<Longrightarrow> waited cfg w n = 0"
  by (simp add: waited_def filter_empty_conv)

text \<open>
  Against claim C2 as it is stated: the remote service declines the first POST (status
  200, \<open>success\<close> false) and accepts the second. The delivery succeeds with two POSTs
  and the clock has not moved: the rejected attempt was retried, at once.
\<close>

theorem rejected_is_retried:
  "fst (sync_to_cloud example_ext CONFIG (example_config ''s3cret'')
          (to_submission (example_row 1 50 False))
          (example_world [example_row 1 50 False] reject_once))
   \<and> posts (snd (sync_to_cloud example_ext CONFIG (example_config ''s3cret'')
          (to_submission (example_row 1 50 False))
          (example_world [example_row 1 50 False] reject_once))) = 2
   \<and> clock (snd (sync_to_cloud example_ext CONFIG (example_config ''s3cret'')
          (to_submission (example_row 1 50 False))
          (example_world [example_row 1 50 False] reject_once))) = 1000"
  by (simp add: run_defs reject_once_def)

text \<open>
  Claim C2, amended. With both keys configured (and a digest that is not the empty
  string, as every MD5 digest is), a delivery makes at most \<open>max_retries\<close> POSTs. It
  stops at the first reply that is an acknowledged success or that raises an exception
  other than a request exception; after every other reply it goes on to the next
  attempt while attempts remain, after a rejection (status 200 with \<open>success\<close> false)
  and after an HTTP error as after a request exception. So the delivery succeeds
  exactly when one of the next \<open>max_retries\<close> replies is a success and no earlier reply
  raised such an exception. A wait of \<open>retry_delay\<close> follows each attempt that met a
  request exception and was not the last of the \<open>max_retries\<close> attempts, and nothing
  else is waited: the clock advances by exactly \<open>retry_delay\<close> times the number of such
  attempts made. A rejection or an HTTP error is thus retried at once, and the whole
  wait is at most \<open>retry_delay\<close> times \<open>max_retries - 1\<close>.
\<close>

theorem sync_to_cloud_attempts:
  assumes "api_key config \<noteq> []" and "api_secret config \<noteq> []"
    and "\<forall>x. md5_hexdigest ext x \<noteq> []"
  shows "(fst (sync_to_cloud ext cfg config s w) \<longleftrightarrow>
           (\<exists>k<max_retries cfg. respond w (posts w + k) = Response 200 True
              \<and> (\<forall>j<k. respond w (posts w + j) \<noteq> OtherException)))
     \<and> posts w \<le> posts (snd (sync_to_cloud ext cfg config s w))
     \<and> posts (snd (sync_to_cloud ext cfg config s w)) \<le> posts w + max_retries cfg
     \<and> (\<forall>j. Suc j < posts (snd (sync_to_cloud ext cfg config s w)) - posts w \<longrightarrow>
           \<not> ends_delivery (respond w (posts w + j)))
     \<and> (posts (snd (sync_to_cloud ext cfg config s w)) - posts w < max_retries cfg \<longrightarrow>
           0 < posts (snd (sync_to_cloud ext cfg config s w)) - posts w
           \<and> ends_delivery (respond w (posts w
                + (posts (snd (sync_to_cloud ext cfg config s w)) - posts w - 1))))
     \<and> clock (snd (sync_to_cloud ext cfg config s w))
           = clock w + retry_delay cfg
               * waited cfg w (posts (snd (sync_to_cloud ext cfg config s w)) - posts w)
     \<and> ((\<forall>j < posts (snd (sync_to_cloud ext cfg config s w)) - posts w.
             respond w (posts w + j) \<noteq> RequestException) \<longrightarrow>
           clock (snd (sync_to_cloud ext cfg config s w)) = clock w)
     \<and> clock (snd (sync_to_cloud ext cfg config s w))
           \<le> clock w + retry_delay cfg * (max_retries cfg - 1)"
proof -
  obtain sg where sg: "generate_signature ext config (build_sync_data ext s) (clock w) = Some sg"
    and ne: "sg \<noteq> []"
    using assms(2,3) by (simp add: generate_signature_def Let_def)
  let ?req = "\<lparr>req_api_key = api_key config, req_timestamp = clock w,
                req_signature = sg, req_data = build_sync_data ext s\<rparr>"
  let ?as = "[0 ..< max_retries cfg]"
  let ?w' = "snd (post_attempts cfg ?req (sub_id s) ?as w)"
  have eq: "sync_to_cloud ext cfg config s w = post_attempts cfg ?req (sub_id s) ?as w"
    using assms(1,2) sg ne by (simp add: sync_to_cloud_def Let_def)
  note count = post_attempts_count [of cfg ?req "sub_id s" ?as w]
  have le: "posts ?w' - posts w \<le> max_retries cfg" using count by simp
  have a: "fst (post_attempts cfg ?req (sub_id s) ?as w) \<longleftrightarrow>
           (\<exists>k<max_retries cfg. respond w (posts w + k) = Response 200 True
              \<and> (\<forall>j<k. respond w (posts w + j) \<noteq> OtherException))"
    using post_attempts_delivered [of cfg ?req "sub_id s" ?as w] by (simp add: acknowledged_def)
  have b1: "posts w \<le> posts ?w'" by (rule post_attempts_posts_mono)
  have b2: "posts ?w' \<le> posts w + max_retries cfg"
    using post_attempts_posts [of cfg ?req "sub_id s" ?as w] by simp
  have c: "\<forall>j. Suc j < posts ?w' - posts w \<longrightarrow> \<not> ends_delivery (respond w (posts w + j))"
    using count by blast
  have d: "posts ?w' - posts w < max_retries cfg \<longrightarrow>
           0 < posts ?w' - posts w
           \<and> ends_delivery (respond w (posts w + (posts ?w' - posts w - 1)))"
    using count by simp
  have e: "clock ?w' = clock w + retry_delay cfg * waited cfg w (posts ?w' - posts w)"
    using post_attempts_clock [of cfg ?req "sub_id s" ?as w]
    unfolding waited_upt [OF le] .
  have f: "(\<forall>j < posts ?w' - posts w. respond w (posts w + j) \<noteq> RequestException) \<longrightarrow>
           clock ?w' = clock w"
    using e waited_none [of "posts ?w' - posts w" w cfg] by simp
  have g: "clock ?w' \<le> clock w + retry_delay cfg * (max_retries cfg - 1)"
    using post_attempts_wait_bound [of cfg ?req "sub_id s" ?as w]
    by (simp only: length_filter_upt)
  show ?thesis unfolding eq using a b1 b2 c d e f g by blast
qed

theorem sync_to_cloud_attempts_witness:
  "api_key (example_config ''s3cret'') \<noteq> []
   \<and> api_secret (example_config ''s3cret'') \<noteq> []
   \<and> (\<forall>x. md5_hexdigest example_ext x \<noteq> [])
   \<and> fst (sync_to_cloud example_ext CONFIG (example_config ''s3cret'')
            (to_submission (example_row 1 50 False))
            (example_world [example_row 1 50 False] flaky))
   \<and> posts (snd (sync_to_cloud example_ext CONFIG (example_config ''s3cret'')
            (to_submission (example_row 1 50 False))
            (example_world [example_row 1 50 False] flaky))) = 3
   \<and> waited CONFIG (example_world [example_row 1 50 False] flaky) 3 = 1
   \<and> clock (snd (sync_to_cloud example_ext CONFIG (example_config ''s3cret'')
            (to_submission (example_row 1 50 False))
            (example_world [example_row 1 50 False] flaky))) = 1005"
proof -
  let ?w = "example_world [example_row 1 50 False] flaky"
  let ?w' = "snd (sync_to_cloud example_ext CONFIG (example_config ''s3cret'')
            (to_submission (example_row 1 50 False)) ?w)"
  have h1: "api_key (example_config ''s3cret'') \<noteq> []"
    and h2: "api_secret (example_config ''s3cret'') \<noteq> []"
    by (simp_all add: example_config_def)
  have h3: "\<forall>x. md5_hexdigest example_ext x \<noteq> []"
    by (simp add: example_ext_def)
  note t = sync_to_cloud_attempts [OF h1 h2 h3, of CONFIG
      "to_submission (example_row 1 50 False)" ?w]
  have ack: "\<exists>k<max_retries CONFIG. respond ?w (posts ?w + k) = Response 200 True
              \<and> (\<forall>j<k. respond ?w (posts ?w + j) \<noteq> OtherException)"
    by (rule exI [of _ 2]) (simp add: CONFIG_def example_world_def flaky_def)
  have a: "fst (sync_to_cloud example_ext CONFIG (example_config ''s3cret'')
            (to_submission (example_row 1 50 False)) ?w)"
    using t ack by blast
  have p: "posts ?w' = 3"
    by (simp add: run_defs flaky_def)
  have p0: "posts ?w = 0" and c0: "clock ?w = 1000"
    by (simp_all add: example_world_def)
  have wt: "waited CONFIG ?w 3 = 1"
    by (simp add: waited_def upt3 flaky_def example_world_def CONFIG_def)
  have "clock ?w' = clock ?w + retry_delay CONFIG * waited CONFIG ?w (posts ?w' - posts ?w)"
    using t by blast
  then have "clock ?w' = 1000 + retry_delay CONFIG * waited CONFIG ?w 3"
    unfolding p p0 c0 by simp
  then have c: "clock ?w' = 1005"
    unfolding wt by (simp add: CONFIG_def)
  from h1 h2 h3 a p wt c show ?thesis by blast
qed

subsection \<open>The loop over the batch\<close>

lemma rows_with_id_update_other:
  "i \<noteq> j \<Longrightarrow> rows_with_id i (update_synced t j rows) = rows_with_id i rows"
  by (induction rows) (simp_all add: rows_with_id_def update_synced_def)

lemma rows_with_id_update_same:
  "list_all synced_to_cloud (rows_with_id i (update_synced t i rows))"
  by (induction rows) (simp_all add: rows_with_id_def update_synced_def)

lemma rows_with_id_update_keeps:
  "list_all synced_to_cloud (rows_with_id i rows) \<Longrightarrow>
     list_all synced_to_cloud (rows_with_id i (update_synced t j rows))"
  by (induction rows) (auto simp: rows_with_id_def update_synced_def split: if_splits)

lemma sync_item_keeps:
  "list_all synced_to_cloud (rows_with_id i (db w)) \<Longrightarrow>
     list_all synced_to_cloud (rows_with_id i (db (snd (sync_item ext cfg config s w))))"
  by (simp add: sync_item_db rows_with_id_update_keeps)

lemma sync_items_keeps:
  "list_all synced_to_cloud (rows_with_id i (db w)) \<Longrightarrow>
     list_all synced_to_cloud (rows_with_id i (db (snd (sync_items ext cfg config n subs w))))"
proof (induction subs arbitrary: n w)
  case Nil
  then show ?case by simp
next
  case (Cons s subs)
  obtain ok w1 where sw: "sync_item ext cfg config s w = (ok, w1)"
    by (cases "sync_item ext cfg config s w")
  have "list_all synced_to_cloud (rows_with_id i (db w1))"
    using sync_item_keeps [OF Cons.prems, of ext cfg config s] sw by simp
  then show ?case using Cons.IH sw by simp
qed

lemma sync_items_untouched:
  assumes "\<forall>k<length subs. item_outcomes ext cfg config subs w ! k
              \<and> \<not> update_fails w (sub_id (subs ! k)) \<longrightarrow> sub_id (subs ! k) \<noteq> i"
  shows "rows_with_id i (db (snd (sync_items ext cfg config n subs w))) = rows_with_id i (db w)"
  using assms
proof (induction subs arbitrary: n w)
  case Nil
  show ?case by simp
next
  case (Cons s subs)
  obtain ok w1 where sw: "sync_item ext cfg config s w = (ok, w1)"
    by (cases "sync_item ext cfg config s w")
  have uf: "update_fails w1 = update_fails w"
    using sync_item_frame [of ext cfg config s w] sw by simp
  have first: "ok \<and> \<not> update_fails w (sub_id s) \<longrightarrow> sub_id s \<noteq> i"
    using Cons.prems [rule_format, of 0] sw by simp
  have here: "rows_with_id i (db w1) = rows_with_id i (db w)"
    using sync_item_db [of ext cfg config s w] sw first
    by (auto simp: rows_with_id_update_other)
  have rest: "\<forall>k<length subs. item_outcomes ext cfg config subs w1 ! k
              \<and> \<not> update_fails w1 (sub_id (subs ! k)) \<longrightarrow> sub_id (subs ! k) \<noteq> i"
  proof (intro allI impI)
    fix k assume k: "k < length subs"
      and ok: "item_outcomes ext cfg config subs w1 ! k \<and> \<not> update_fails w1 (sub_id (subs ! k))"
    show "sub_id (subs ! k) \<noteq> i"
      using Cons.prems [rule_format, of "Suc k"] k ok sw uf by simp
  qed
  show ?case using Cons.IH [OF rest] here sw by simp
qed

lemma sync_items_marked:
  assumes "k < length subs" and "item_outcomes ext cfg config subs w ! k"
    and "\<not> update_fails w (sub_id (subs ! k))"
  shows "list_all synced_to_cloud
           (rows_with_id (sub_id (subs ! k)) (db (snd (sync_items ext cfg config n subs w))))"
  using assms
proof (induction subs arbitrary: n w k)
  case Nil
  then show ?case by simp
next
  case (Cons s subs)
  obtain ok w1 where sw: "sync_item ext cfg config s w = (ok, w1)"
    by (cases "sync_item ext cfg config s w")
  have uf: "update_fails w1 = update_fails w"
    using sync_item_frame [of ext cfg config s w] sw by simp
  show ?case
  proof (cases k)
    case 0
    have "ok" using Cons.prems(2) 0 sw by simp
    moreover have "\<not> update_fails w (sub_id s)" using Cons.prems(3) 0 by simp
    ultimately have "list_all synced_to_cloud (rows_with_id (sub_id s) (db w1))"
      using sync_item_db [of ext cfg config s w] sw by (simp add: rows_with_id_update_same)
    then show ?thesis using sync_items_keeps 0 sw by simp
  next
    case (Suc k')
    have "list_all synced_to_cloud (rows_with_id (sub_id (subs ! k'))
            (db (snd (sync_items ext cfg config (if ok then n + 1 else n) subs w1))))"
      using Cons.prems Suc sw uf by (intro Cons.IH) simp_all
    then show ?thesis using Suc sw by simp
  qed
qed

lemma all_true_iff: "length (filter (\<lambda>ok. ok) bs) = length bs \<longleftrightarrow> list_all (\<lambda>ok. ok) bs"
proof (induction bs)
  case Nil
  show ?case by simp
next
  case (Cons b bs)
  have "length (filter (\<lambda>ok. ok) bs) \<le> length bs" by (rule length_filter_le)
  then have "length (filter (\<lambda>ok. ok) bs) \<noteq> Suc (length bs)" by arith
  then show ?case using Cons by auto
qed

text \<open>
  Claim C6. In a batch whose ids are distinct, an item whose delivery fails (a
  rejection, exhausted retries or any other failure of \<open>sync_to_cloud\<close>) leaves the
  rows with its id exactly as they were, so an unsynchronised row stays
  unsynchronised. The loop does not stop there: it meets every item of the batch, the
  count it returns is the number of items delivered, so that each failure is one item
  short of the total, and every delivered item whose UPDATE does not raise ends with
  its rows marked, wherever it stands in the batch.
\<close>

theorem failed_items_stay_unsynced:
  assumes "distinct (map sub_id subs)" and "k < length subs"
    and "\<not> item_outcomes ext cfg config subs w ! k"
  shows "rows_with_id (sub_id (subs ! k)) (db (snd (sync_items ext cfg config 0 subs w)))
           = rows_with_id (sub_id (subs ! k)) (db w)
     \<and> length (item_outcomes ext cfg config subs w) = length subs
     \<and> fst (sync_items ext cfg config 0 subs w)
           = length (filter (\<lambda>ok. ok) (item_outcomes ext cfg config subs w))
     \<and> (\<forall>j<length subs. item_outcomes ext cfg config subs w ! j
             \<and> \<not> update_fails w (sub_id (subs ! j)) \<longrightarrow>
           list_all synced_to_cloud
             (rows_with_id (sub_id (subs ! j)) (db (snd (sync_items ext cfg config 0 subs w)))))"
proof -
  have other: "\<forall>j<length subs. item_outcomes ext cfg config subs w ! j
              \<and> \<not> update_fails w (sub_id (subs ! j)) \<longrightarrow> sub_id (subs ! j) \<noteq> sub_id (subs ! k)"
  proof (intro allI impI)
    fix j assume j: "j < length subs"
      and ok: "item_outcomes ext cfg config subs w ! j \<and> \<not> update_fails w (sub_id (subs ! j))"
    show "sub_id (subs ! j) \<noteq> sub_id (subs ! k)"
    proof
      assume "sub_id (subs ! j) = sub_id (subs ! k)"
      then have "map sub_id subs ! j = map sub_id subs ! k" using j assms(2) by simp
      then have "j = k"
        using nth_eq_iff_index_eq [OF assms(1), of j k] j assms(2) by simp
      with ok assms(3) show False by simp
    qed
  qed
  have a: "rows_with_id (sub_id (subs ! k)) (db (snd (sync_items ext cfg config 0 subs w)))
           = rows_with_id (sub_id (subs ! k)) (db w)"
    by (rule sync_items_untouched [OF other])
  have d: "\<forall>j<length subs. item_outcomes ext cfg config subs w ! j
             \<and> \<not> update_fails w (sub_id (subs ! j)) \<longrightarrow>
           list_all synced_to_cloud
             (rows_with_id (sub_id (subs ! j)) (db (snd (sync_items ext cfg config 0 subs w))))"
    by (auto intro: sync_items_marked)
  from a d show ?thesis
    using length_item_outcomes [of ext cfg config subs w]
      sync_items_count [of ext cfg config 0 subs w]
    by simp
qed

text \<open>
  The batch of ten whose fourth item the remote service declines at each of its three
  attempts: nine rows end marked, the fourth is as it was, and the count is nine.
\<close>

theorem failed_items_stay_unsynced_witness:
  "distinct (map sub_id (map to_submission ten_rows))
   \<and> 3 < length (map to_submission ten_rows)
   \<and> \<not> item_outcomes example_ext CONFIG (example_config ''s3cret'')
          (map to_submission ten_rows) (example_world ten_rows reject_fourth) ! 3
   \<and> rows_with_id 4 (db (snd (sync_items example_ext CONFIG (example_config ''s3cret'') 0
          (map to_submission ten_rows) (example_world ten_rows reject_fourth))))
       = [example_row 4 40 False]
   \<and> fst (sync_items example_ext CONFIG (example_config ''s3cret'') 0
          (map to_submission ten_rows) (example_world ten_rows reject_fourth)) = 9
   \<and> map synced_to_cloud (db (snd (sync_items example_ext CONFIG (example_config ''s3cret'') 0
          (map to_submission ten_rows) (example_world ten_rows reject_fourth))))
       = [True, True, True, False, True, True, True, True, True, True]"
proof -
  let ?subs = "map to_submission ten_rows"
  let ?w = "example_world ten_rows reject_fourth"
  have outs: "item_outcomes example_ext CONFIG (example_config ''s3cret'') ?subs ?w
       = [True, True, True, False, True, True, True, True, True, True]"
    by (simp add: run_defs ten_rows_def reject_fourth_def)
  have flags: "map synced_to_cloud (db (snd (sync_items example_ext CONFIG
         (example_config ''s3cret'') 0 ?subs ?w)))
       = [True, True, True, False, True, True, True, True, True, True]"
    by (simp add: run_defs ten_rows_def reject_fourth_def)
  have h1: "distinct (map sub_id ?subs)"
    by (simp add: ten_rows_def to_submission_def example_row_def)
  have h2: "3 < length ?subs" by (simp add: ten_rows_def)
  have h3: "\<not> item_outcomes example_ext CONFIG (example_config ''s3cret'') ?subs ?w ! 3"
    unfolding outs by simp
  note t = failed_items_stay_unsynced [OF h1 h2 h3]
  have id4: "sub_id (?subs ! 3) = 4"
    by (simp add: ten_rows_def to_submission_def example_row_def)
  have before: "rows_with_id 4 (db ?w) = [example_row 4 40 False]"
    by (simp add: rows_with_id_def example_world_def ten_rows_def example_row_def)
  have a: "rows_with_id 4 (db (snd (sync_items example_ext CONFIG (example_config ''s3cret'') 0
          ?subs ?w))) = [example_row 4 40 False]"
    using t [THEN conjunct1] unfolding id4 before .
  have b: "fst (sync_items example_ext CONFIG (example_config ''s3cret'') 0 ?subs ?w) = 9"
    using t [THEN conjunct2, THEN conjunct2, THEN conjunct1] unfolding outs by simp
  from h1 h2 h3 a b flags show ?thesis by blast
qed

lemma post_attempts_trace: "set (trace w) \<subseteq> set (trace (snd (post_attempts cfg req sid as w)))"
proof (induction as arbitrary: w)
  case Nil
  show ?case by simp
next
  case (Cons a as)
  let ?w1 = "emit (HttpPost req) (w\<lparr>posts := Suc (posts w)\<rparr>)"
  let ?w2 = "logging (ErrorRequestFailed (a + 1) (max_retries cfg)) ?w1"
  show ?case
  proof (cases "respond w (posts w)")
    case (Response status ok)
    then show ?thesis
      using Cons.IH [of "logging ErrorCloud ?w1"] Cons.IH [of "logging (ErrorHttp status) ?w1"]
      by (auto simp: Let_def)
  next
    case RequestException
    then show ?thesis
      using Cons.IH [of ?w2] Cons.IH [of "sleep (retry_delay cfg) ?w2"]
      by (auto simp: Let_def)
  next
    case OtherException
    then show ?thesis by (auto simp: Let_def)
  qed
qed

lemma sync_to_cloud_trace:
  "set (trace w) \<subseteq> set (trace (snd (sync_to_cloud ext cfg config s w)))"
  using post_attempts_trace
  by (auto simp: sync_to_cloud_def Let_def split: option.split)

lemma mark_as_synced_trace:
  "trace (mark_as_synced i w)
     = trace w @ [if update_fails w i then Log ErrorMarkFailed else DbUpdate i]"
  by (simp add: mark_as_synced_def)

lemma sync_item_trace:
  "set (trace w) \<subseteq> set (trace (snd (sync_item ext cfg config s w)))"
  using sync_to_cloud_trace [of w ext cfg config s]
  by (cases "sync_to_cloud ext cfg config s w") (auto simp: sync_item_def mark_as_synced_trace)

lemma sync_item_mark_logged:
  assumes "fst (sync_item ext cfg config s w)" and "update_fails w (sub_id s)"
  shows "Log ErrorMarkFailed \<in> set (trace (snd (sync_item ext cfg config s w)))"
proof -
  obtain ok w1 where sc: "sync_to_cloud ext cfg config s w = (ok, w1)"
    by (cases "sync_to_cloud ext cfg config s w")
  have "update_fails w1 = update_fails w"
    using sync_to_cloud_frame [of ext cfg config s w] sc by simp
  then show ?thesis using assms sc by (simp add: sync_item_def mark_as_synced_trace)
qed

lemma sync_items_trace:
  "set (trace w) \<subseteq> set (trace (snd (sync_items ext cfg config n subs w)))"
proof (induction subs arbitrary: n w)
  case Nil
  show ?case by simp
next
  case (Cons s subs)
  obtain ok w1 where sw: "sync_item ext cfg config s w = (ok, w1)"
    by (cases "sync_item ext cfg config s w")
  have "set (trace w) \<subseteq> set (trace w1)"
    using sync_item_trace [of w ext cfg config s] sw by simp
  also have "\<dots> \<subseteq> set (trace (snd (sync_items ext cfg config (if ok then n + 1 else n) subs w1)))"
    by (rule Cons.IH)
  finally show ?case using sw by simp
qed

lemma sync_items_mark_logged:
  assumes "k < length subs" and "item_outcomes ext cfg config subs w ! k"
    and "update_fails w (sub_id (subs ! k))"
  shows "Log ErrorMarkFailed \<in> set (trace (snd (sync_items ext cfg config n subs w)))"
  using assms
proof (induction subs arbitrary: n w k)
  case Nil
  then show ?case by simp
next
  case (Cons s subs)
  obtain ok w1 where sw: "sync_item ext cfg config s w = (ok, w1)"
    by (cases "sync_item ext cfg config s w")
  have uf: "update_fails w1 = update_fails w"
    using sync_item_frame [of ext cfg config s w] sw by simp
  show ?case
  proof (cases k)
    case 0
    have "Log ErrorMarkFailed \<in> set (trace w1)"
      using sync_item_mark_logged [of ext cfg config s w] Cons.prems 0 sw by simp
    then show ?thesis
      using sync_items_trace [of w1 ext cfg config "if ok then n + 1 else n" subs] sw by auto
  next
    case (Suc k')
    have "Log ErrorMarkFailed
            \<in> set (trace (snd (sync_items ext cfg config (if ok then n + 1 else n) subs w1)))"
      using Cons.prems Suc sw uf by (intro Cons.IH [of k']) simp_all
    then show ?thesis using sw by simp
  qed
qed

text \<open>
  Claim C10. When the delivery of an item is acknowledged and the UPDATE that marks it
  raises, the exception is caught and logged, the rows with that id are left exactly as
  they were (an unsynchronised row is still unsynchronised, and still matches the query
  of a later cycle), and the item is counted all the same: the count returned is the number of
  acknowledged deliveries, this one included.
\<close>

theorem mark_failure_counted_as_success:
  assumes "k < length subs"
    and "item_outcomes ext cfg config subs w ! k"
    and "update_fails w (sub_id (subs ! k))"
  shows "rows_with_id (sub_id (subs ! k)) (db (snd (sync_items ext cfg config 0 subs w)))
           = rows_with_id (sub_id (subs ! k)) (db w)
     \<and> fst (sync_items ext cfg config 0 subs w)
           = length (filter (\<lambda>ok. ok) (item_outcomes ext cfg config subs w))
     \<and> 0 < fst (sync_items ext cfg config 0 subs w)
     \<and> Log ErrorMarkFailed \<in> set (trace (snd (sync_items ext cfg config 0 subs w)))"
proof -
  have other: "\<forall>j<length subs. item_outcomes ext cfg config subs w ! j
              \<and> \<not> update_fails w (sub_id (subs ! j)) \<longrightarrow> sub_id (subs ! j) \<noteq> sub_id (subs ! k)"
  proof (intro allI impI)
    fix j assume j: "j < length subs"
      and ok: "item_outcomes ext cfg config subs w ! j \<and> \<not> update_fails w (sub_id (subs ! j))"
    show "sub_id (subs ! j) \<noteq> sub_id (subs ! k)"
      using ok assms(3) by auto
  qed
  have a: "rows_with_id (sub_id (subs ! k)) (db (snd (sync_items ext cfg config 0 subs w)))
           = rows_with_id (sub_id (subs ! k)) (db w)"
    by (rule sync_items_untouched [OF other])
  have b: "fst (sync_items ext cfg config 0 subs w)
           = length (filter (\<lambda>ok. ok) (item_outcomes ext cfg config subs w))"
    using sync_items_count [of ext cfg config 0 subs w] by simp
  have "item_outcomes ext cfg config subs w ! k \<in> set (item_outcomes ext cfg config subs w)"
    using assms(1) length_item_outcomes [of ext cfg config subs w] by simp
  then have "True \<in> set (filter (\<lambda>ok. ok) (item_outcomes ext cfg config subs w))"
    using assms(2) by simp
  then have c: "0 < fst (sync_items ext cfg config 0 subs w)"
    unfolding b by (simp only: length_pos_if_in_set)
  have d: "Log ErrorMarkFailed \<in> set (trace (snd (sync_items ext cfg config 0 subs w)))"
    by (rule sync_items_mark_logged [OF assms])
  from a b c d show ?thesis by blast
qed

theorem mark_failure_counted_as_success_witness:
  "1 < length (map to_submission [example_row 1 50 False, example_row 2 60 False,
                 example_row 3 70 False])
   \<and> item_outcomes example_ext CONFIG (example_config ''s3cret'')
        (map to_submission [example_row 1 50 False, example_row 2 60 False,
           example_row 3 70 False])
        ((example_world [example_row 1 50 False, example_row 2 60 False, example_row 3 70 False]
            (always (Response 200 True)))\<lparr>update_fails := second_mark_fails\<rparr>) ! 1
   \<and> fst (sync_items example_ext CONFIG (example_config ''s3cret'') 0
        (map to_submission [example_row 1 50 False, example_row 2 60 False,
           example_row 3 70 False])
        ((example_world [example_row 1 50 False, example_row 2 60 False, example_row 3 70 False]
            (always (Response 200 True)))\<lparr>update_fails := second_mark_fails\<rparr>)) = 3
   \<and> map synced_to_cloud (db (snd (sync_items example_ext CONFIG (example_config ''s3cret'') 0
        (map to_submission [example_row 1 50 False, example_row 2 60 False,
           example_row 3 70 False])
        ((example_world [example_row 1 50 False, example_row 2 60 False, example_row 3 70 False]
            (always (Response 200 True)))\<lparr>update_fails := second_mark_fails\<rparr>))))
       = [True, False, True]
   \<and> Log ErrorMarkFailed \<in> set (trace (snd (sync_items example_ext CONFIG
        (example_config ''s3cret'') 0
        (map to_submission [example_row 1 50 False, example_row 2 60 False,
           example_row 3 70 False])
        ((example_world [example_row 1 50 False, example_row 2 60 False, example_row 3 70 False]
            (always (Response 200 True)))\<lparr>update_fails := second_mark_fails\<rparr>))))"
proof -
  let ?subs = "map to_submission [example_row 1 50 False, example_row 2 60 False,
                 example_row 3 70 False]"
  let ?w = "(example_world [example_row 1 50 False, example_row 2 60 False,
               example_row 3 70 False] (always (Response 200 True)))
              \<lparr>update_fails := second_mark_fails\<rparr>"
  have outs: "item_outcomes example_ext CONFIG (example_config ''s3cret'') ?subs ?w
                = [True, True, True]"
    by (simp add: run_defs always_def second_mark_fails_def)
  have flags: "map synced_to_cloud (db (snd (sync_items example_ext CONFIG
                 (example_config ''s3cret'') 0 ?subs ?w))) = [True, False, True]"
    by (simp add: run_defs always_def second_mark_fails_def)
  have h1: "1 < length ?subs" by simp
  have h2: "item_outcomes example_ext CONFIG (example_config ''s3cret'') ?subs ?w ! 1"
    unfolding outs by simp
  have h3: "update_fails ?w (sub_id (?subs ! 1))"
    by (simp add: second_mark_fails_def to_submission_def example_row_def)
  note t = mark_failure_counted_as_success [OF h1 h2 h3]
  have a: "fst (sync_items example_ext CONFIG (example_config ''s3cret'') 0 ?subs ?w) = 3"
    using t [THEN conjunct2, THEN conjunct1] unfolding outs by simp
  have b: "Log ErrorMarkFailed \<in> set (trace (snd (sync_items example_ext CONFIG
             (example_config ''s3cret'') 0 ?subs ?w)))"
    using t by blast
  from h1 h2 a flags b show ?thesis by blast
qed

subsection \<open>A cycle that runs\<close>

lemma sync_all_pending_runs:
  assumes "ping_ok w" and "sync_enabled config" and "fst (get_unsynced_submissions cfg w) \<noteq> []"
  shows "sync_all_pending ext cfg config w =
     (let subs = fst (get_unsynced_submissions cfg w);
          r = sync_items ext cfg config 0 subs (selected cfg w);
          w4 = logging (InfoSyncDone (fst r) (length subs)) (snd r);
          config' = config\<lparr>last_sync_time := Some (clock w4)\<rparr>
      in (fst r = length subs, config', save_config config' w4))"
  using assms
  by (simp add: sync_all_pending_def check_network_connection_def selected_def Let_def
      case_prod_beta)

text \<open>
  Against claim C3 as it is stated: with the network up and synchronisation enabled, a
  table without unsynchronised rows makes \<open>sync_all_pending\<close> return \<open>True\<close> before
  the lines that set \<open>last_sync_time\<close>: the configuration is the one it was and the
  configuration file is not written.
\<close>

theorem empty_batch_keeps_last_sync_time:
  "fst (sync_all_pending example_ext CONFIG (example_config ''s3cret'')
          (example_world [example_row 1 50 True] (\<lambda>k. Response 200 True)))
   \<and> last_sync_time (fst (snd (sync_all_pending example_ext CONFIG (example_config ''s3cret'')
          (example_world [example_row 1 50 True] (\<lambda>k. Response 200 True))))) = None
   \<and> config_file (snd (snd (sync_all_pending example_ext CONFIG (example_config ''s3cret'')
          (example_world [example_row 1 50 True] (\<lambda>k. Response 200 True))))) = NoFile
   \<and> trace (snd (snd (sync_all_pending example_ext CONFIG (example_config ''s3cret'')
          (example_world [example_row 1 50 True] (\<lambda>k. Response 200 True)))))
       = [Ping, Log InfoSyncStart, DbSelect, Log InfoNoPending]"
  by (simp add: sync_all_pending_def check_network_connection_def get_unsynced_submissions_def
      select_unsynced_def example_config_def example_world_def example_row_def CONFIG_def
      emit_def logging_def)

text \<open>
  Claim C3, amended. In a cycle that passes the connectivity and \<open>sync_enabled\<close>
  checks and selects at least one submission, whatever the outcomes of the items are,
  \<open>last_sync_time\<close> of the configuration is set to the time at the end of the batch
  and \<open>save_config\<close> is called with it: the configuration file then holds the new
  configuration, unless the write raises. An exception raised before the file is
  written to leaves the file as it was; one raised after the file has been opened for
  writing leaves it damaged (empty or partly written). In both cases the exception is
  caught and the configuration of the manager keeps the new \<open>last_sync_time\<close>.
\<close>

theorem last_sync_time_after_batch:
  assumes "ping_ok w" and "sync_enabled config" and "fst (get_unsynced_submissions cfg w) \<noteq> []"
  shows "fst (snd (sync_all_pending ext cfg config w))
           = config\<lparr>last_sync_time := Some (clock (snd (snd (sync_all_pending ext cfg config w))))\<rparr>
     \<and> config_file (snd (snd (sync_all_pending ext cfg config w)))
           = (case save_fault w of
                NoFault \<Rightarrow> Holds (fst (snd (sync_all_pending ext cfg config w)))
              | FailsBeforeWrite \<Rightarrow> config_file w
              | FailsWhileWriting \<Rightarrow> Damaged)"
  using sync_items_frame [of ext cfg config 0 "fst (get_unsynced_submissions cfg w)"
      "selected cfg w"]
  by (simp add: sync_all_pending_runs [OF assms] Let_def selected_def
      split: write_fault.split)

theorem last_sync_time_after_batch_witness:
  "ping_ok (example_world [example_row 1 50 False] reject_once)
   \<and> sync_enabled (example_config ''s3cret'')
   \<and> fst (get_unsynced_submissions CONFIG (example_world [example_row 1 50 False] reject_once))
       \<noteq> []
   \<and> last_sync_time (fst (snd (sync_all_pending example_ext CONFIG (example_config ''s3cret'')
        (example_world [example_row 1 50 False] reject_once)))) = Some 1001
   \<and> config_file (snd (snd (sync_all_pending example_ext CONFIG (example_config ''s3cret'')
        (example_world [example_row 1 50 False] reject_once))))
       = Holds ((example_config ''s3cret'')\<lparr>last_sync_time := Some 1001\<rparr>)"
proof -
  let ?w = "example_world [example_row 1 50 False] reject_once"
  let ?r = "sync_all_pending example_ext CONFIG (example_config ''s3cret'') ?w"
  have h1: "ping_ok ?w" by (simp add: example_world_def)
  have h2: "sync_enabled (example_config ''s3cret'')" by (simp add: example_config_def)
  have h3: "fst (get_unsynced_submissions CONFIG ?w) \<noteq> []"
    by (simp add: cycle_defs example_world_def example_row_def CONFIG_def)
  note t = last_sync_time_after_batch [OF h1 h2 h3, of example_ext]
  have ck: "clock (snd (snd ?r)) = 1001"
    by (simp add: cycle_defs run_defs reject_once_def)
  have sf: "save_fault ?w = NoFault" by (simp add: example_world_def)
  have a: "last_sync_time (fst (snd ?r)) = Some 1001"
    using t [THEN conjunct1] ck by simp
  have b: "config_file (snd (snd ?r))
             = Holds ((example_config ''s3cret'')\<lparr>last_sync_time := Some 1001\<rparr>)"
    using t ck sf by simp
  from h1 h2 h3 a b show ?thesis by blast
qed

text \<open>
  Against claim C9 as it is stated: a cycle with no success out of one and a cycle with
  one success out of two log different counts and both return \<open>False\<close>. The caller
  receives a truth value, from which the counts cannot be told.
\<close>

theorem result_hides_counts:
  "fst (sync_all_pending example_ext CONFIG (example_config ''s3cret'')
        (example_world [example_row 1 50 False] (always (Response 200 False)))) = False
   \<and> Log (InfoSyncDone 0 1) \<in> set (trace (snd (snd (sync_all_pending example_ext CONFIG
        (example_config ''s3cret'')
        (example_world [example_row 1 50 False] (always (Response 200 False)))))))
   \<and> fst (sync_all_pending example_ext CONFIG (example_config ''s3cret'')
        (example_world [example_row 1 50 False, example_row 2 60 False] one_success)) = False
   \<and> Log (InfoSyncDone 1 2) \<in> set (trace (snd (snd (sync_all_pending example_ext CONFIG
        (example_config ''s3cret'')
        (example_world [example_row 1 50 False, example_row 2 60 False] one_success)))))"
  by (simp add: cycle_defs run_defs save_config_def always_def one_success_def)

text \<open>
  Claim C9, amended. A cycle that processes a batch writes the pair of the number of
  delivered items and the number of selected items to the log, and returns to its
  caller only whether the two are equal, that is whether every item of the batch was
  delivered.
\<close>

theorem sync_all_pending_result:
  assumes "ping_ok w" and "sync_enabled config" and "fst (get_unsynced_submissions cfg w) \<noteq> []"
  shows "fst (sync_all_pending ext cfg config w)
           = list_all (\<lambda>ok. ok)
               (item_outcomes ext cfg config (fst (get_unsynced_submissions cfg w))
                  (selected cfg w))
     \<and> Log (InfoSyncDone
              (length (filter (\<lambda>ok. ok)
                 (item_outcomes ext cfg config (fst (get_unsynced_submissions cfg w))
                    (selected cfg w))))
              (length (fst (get_unsynced_submissions cfg w))))
         \<in> set (trace (snd (snd (sync_all_pending ext cfg config w))))"
proof -
  let ?subs = "fst (get_unsynced_submissions cfg w)"
  let ?outs = "item_outcomes ext cfg config ?subs (selected cfg w)"
  have n: "fst (sync_items ext cfg config 0 ?subs (selected cfg w))
             = length (filter (\<lambda>ok. ok) ?outs)"
    using sync_items_count [of ext cfg config 0 ?subs "selected cfg w"] by simp
  have l: "length ?outs = length ?subs" by (rule length_item_outcomes)
  have a: "fst (sync_all_pending ext cfg config w) = list_all (\<lambda>ok. ok) ?outs"
    using all_true_iff [of ?outs] by (simp add: sync_all_pending_runs [OF assms] Let_def n l)
  have b: "Log (InfoSyncDone (length (filter (\<lambda>ok. ok) ?outs)) (length ?subs))
         \<in> set (trace (snd (snd (sync_all_pending ext cfg config w))))"
    by (simp add: sync_all_pending_runs [OF assms] Let_def n)
  from a b show ?thesis by blast
qed

theorem sync_all_pending_result_witness:
  "ping_ok (example_world [example_row 1 50 False, example_row 2 60 False]
        (always (Response 200 True)))
   \<and> sync_enabled (example_config ''s3cret'')
   \<and> fst (get_unsynced_submissions CONFIG
        (example_world [example_row 1 50 False, example_row 2 60 False]
           (always (Response 200 True)))) \<noteq> []
   \<and> fst (sync_all_pending example_ext CONFIG (example_config ''s3cret'')
        (example_world [example_row 1 50 False, example_row 2 60 False]
           (always (Response 200 True))))
   \<and> Log (InfoSyncDone 2 2) \<in> set (trace (snd (snd (sync_all_pending example_ext CONFIG
        (example_config ''s3cret'')
        (example_world [example_row 1 50 False, example_row 2 60 False]
           (always (Response 200 True)))))))"
proof -
  let ?w = "example_world [example_row 1 50 False, example_row 2 60 False]
              (always (Response 200 True))"
  have h1: "ping_ok ?w" by (simp add: example_world_def)
  have h2: "sync_enabled (example_config ''s3cret'')" by (simp add: example_config_def)
  have subs: "fst (get_unsynced_submissions CONFIG ?w)
                = [to_submission (example_row 1 50 False), to_submission (example_row 2 60 False)]"
    by (simp add: cycle_defs example_world_def example_row_def CONFIG_def)
  have h3: "fst (get_unsynced_submissions CONFIG ?w) \<noteq> []"
    unfolding subs by (simp add: numeral_2_eq_2)
  have outs: "item_outcomes example_ext CONFIG (example_config ''s3cret'')
                (fst (get_unsynced_submissions CONFIG ?w)) (selected CONFIG ?w) = [True, True]"
    unfolding subs by (simp add: selected_def cycle_defs run_defs always_def)
  note t = sync_all_pending_result [OF h1 h2 h3, of example_ext]
  have a: "fst (sync_all_pending example_ext CONFIG (example_config ''s3cret'') ?w)"
    using t [THEN conjunct1] unfolding outs by simp
  have "Log (InfoSyncDone (length (filter (\<lambda>ok. ok) [True, True]))
               (length (fst (get_unsynced_submissions CONFIG ?w))))
          \<in> set (trace (snd (snd (sync_all_pending example_ext CONFIG
                (example_config ''s3cret'') ?w))))"
    using t [THEN conjunct2] unfolding outs .
  then have b: "Log (InfoSyncDone 2 2) \<in> set (trace (snd (snd (sync_all_pending example_ext
        CONFIG (example_config ''s3cret'') ?w))))"
    unfolding subs by (simp add: numeral_2_eq_2)
  from h1 h2 h3 a b show ?thesis by blast
qed

lemma sync_item_no_secret:
  assumes "api_secret config = []"
  shows "fst (sync_item ext cfg config s w) = False
     \<and> posts (snd (sync_item ext cfg config s w)) = posts w
     \<and> db (snd (sync_item ext cfg config s w)) = db w"
  using assms by (simp add: sync_item_def sync_to_cloud_def)

lemma sync_items_no_secret:
  assumes "api_secret config = []"
  shows "posts (snd (sync_items ext cfg config n subs w)) = posts w
     \<and> db (snd (sync_items ext cfg config n subs w)) = db w
     \<and> fst (sync_items ext cfg config n subs w) = n"
proof (induction subs arbitrary: n w)
  case Nil
  show ?case by simp
next
  case (Cons s subs)
  obtain ok w1 where sw: "sync_item ext cfg config s w = (ok, w1)"
    by (cases "sync_item ext cfg config s w")
  then show ?case
    using sync_item_no_secret [OF assms, of ext cfg s w] Cons.IH [of n w1] by simp
qed

lemma sync_all_pending_selects:
  assumes "ping_ok w" and "sync_enabled config" and "\<not> select_fails w"
  shows "DbSelect \<in> set (trace (snd (snd (sync_all_pending ext cfg config w))))"
proof (cases "fst (get_unsynced_submissions cfg w) = []")
  case True
  then show ?thesis
    using assms
    by (simp add: sync_all_pending_def check_network_connection_def case_prod_beta)
next
  case False
  have "DbSelect \<in> set (trace (selected cfg w))"
    using assms(3) by (simp add: selected_def)
  then have "DbSelect \<in> set (trace (snd (sync_items ext cfg config 0
               (fst (get_unsynced_submissions cfg w)) (selected cfg w))))"
    using sync_items_trace by blast
  then show ?thesis
    using assms(1,2) False by (simp add: sync_all_pending_runs Let_def)
qed

text \<open>
  Against claim C5 as it is stated: with an empty secret, a cycle is not aborted. It
  probes the network, reads the batch from the table, fails the item, and ends by
  setting and saving \<open>last_sync_time\<close>.
\<close>

theorem no_secret_cycle_still_runs:
  "api_secret (example_config []) = []
   \<and> fst (sync_all_pending example_ext CONFIG (example_config [])
        (example_world [example_row 1 50 False] (always (Response 200 True)))) = False
   \<and> trace (snd (snd (sync_all_pending example_ext CONFIG (example_config [])
        (example_world [example_row 1 50 False] (always (Response 200 True))))))
       = [Ping, Log InfoSyncStart, DbSelect, Log WarnNoApiKey, Log (ErrorSyncFailed 1), Sleep 1,
          Log (InfoSyncDone 0 1),
          ConfigWrite ((example_config [])\<lparr>last_sync_time := Some 1001\<rparr>)]
   \<and> last_sync_time (fst (snd (sync_all_pending example_ext CONFIG (example_config [])
        (example_world [example_row 1 50 False] (always (Response 200 True)))))) = Some 1001"
  by (simp add: cycle_defs run_defs save_config_def)

text \<open>
  Claim C5, amended. With an empty secret \<open>generate_signature\<close> returns \<open>None\<close>
  and every delivery fails before any POST. A cycle run with an empty secret sends no
  POST and changes no row of the table, but it is not aborted before the table is
  touched: once the connectivity and \<open>sync_enabled\<close> checks pass, it runs the query
  that selects the batch.
\<close>

theorem no_secret_no_request:
  assumes "api_secret config = []"
  shows "generate_signature ext config d ts = None
     \<and> fst (sync_to_cloud ext cfg config s w) = False
     \<and> posts (snd (sync_to_cloud ext cfg config s w)) = posts w
     \<and> posts (snd (snd (sync_all_pending ext cfg config w))) = posts w
     \<and> db (snd (snd (sync_all_pending ext cfg config w))) = db w
     \<and> (ping_ok w \<and> sync_enabled config \<and> \<not> select_fails w \<longrightarrow>
          DbSelect \<in> set (trace (snd (snd (sync_all_pending ext cfg config w)))))"
proof -
  have a: "generate_signature ext config d ts = None"
    using assms by (simp add: generate_signature_def)
  have b: "fst (sync_to_cloud ext cfg config s w) = False
           \<and> posts (snd (sync_to_cloud ext cfg config s w)) = posts w"
    using assms by (simp add: sync_to_cloud_def)
  have c: "posts (snd (snd (sync_all_pending ext cfg config w))) = posts w
           \<and> db (snd (snd (sync_all_pending ext cfg config w))) = db w"
  proof (cases "ping_ok w \<and> sync_enabled config \<and> fst (get_unsynced_submissions cfg w) \<noteq> []")
    case True
    then show ?thesis
      using sync_items_no_secret [OF assms, of ext cfg 0 "fst (get_unsynced_submissions cfg w)"
          "selected cfg w"]
      by (simp add: sync_all_pending_runs Let_def selected_def)
  next
    case False
    then show ?thesis
      by (auto simp: sync_all_pending_def check_network_connection_def case_prod_beta)
  qed
  have d: "ping_ok w \<and> sync_enabled config \<and> \<not> select_fails w \<longrightarrow>
          DbSelect \<in> set (trace (snd (snd (sync_all_pending ext cfg config w))))"
    using sync_all_pending_selects by blast
  from a b c d show ?thesis by blast
qed

theorem no_secret_no_request_witness:
  "api_secret (example_config []) = []
   \<and> generate_signature example_ext (example_config [])
        (build_sync_data example_ext (to_submission (example_row 1 50 False))) 1000 = None
   \<and> posts (snd (snd (sync_all_pending example_ext CONFIG (example_config [])
        (example_world [example_row 1 50 False, example_row 2 60 False]
           (always (Response 200 True)))))) = 0
   \<and> map synced_to_cloud (db (snd (snd (sync_all_pending example_ext CONFIG (example_config [])
        (example_world [example_row 1 50 False, example_row 2 60 False]
           (always (Response 200 True))))))) = [False, False]
   \<and> DbSelect \<in> set (trace (snd (snd (sync_all_pending example_ext CONFIG (example_config [])
        (example_world [example_row 1 50 False, example_row 2 60 False]
           (always (Response 200 True)))))))"
proof -
  let ?w = "example_world [example_row 1 50 False, example_row 2 60 False]
              (always (Response 200 True))"
  have h: "api_secret (example_config []) = []" by (simp add: example_config_def)
  have run: "ping_ok ?w \<and> sync_enabled (example_config []) \<and> \<not> select_fails ?w"
    by (simp add: example_world_def example_config_def)
  note t = no_secret_no_request [OF h, of example_ext
      "build_sync_data example_ext (to_submission (example_row 1 50 False))" 1000 CONFIG
      "to_submission (example_row 1 50 False)" ?w]
  have p: "posts ?w = 0" by (simp add: example_world_def)
  have d: "map synced_to_cloud (db ?w) = [False, False]"
    by (simp add: example_world_def example_row_def)
  from h t p d run show ?thesis by simp
qed

end
